theory Spec2Isabelle
  imports Main
begin

section \<open>JavaScript values, errors and promises\<close>

text \<open>
  The library (\<^verbatim>\<open>src/index.js\<close>) is dynamically typed, so its inputs are modelled by a
  datatype of JavaScript values. Functions are compared by reference
  (\<^verbatim>\<open>===\<close>), which is equality of the reference number of \<open>JFun\<close>. \<open>JBuiltin\<close> is a
  built-in method of \<^verbatim>\<open>Object.prototype\<close>, named by its property name, and \<open>JTask\<close> the task
  object returned by a call of \<^verbatim>\<open>store.runSaga\<close>, named by a number.
  A thrown value is itself a JavaScript value: \<open>JErr\<close> holds the three kinds of error
  object that occur. \<open>ContractViolation\<close> is the error thrown by \<^verbatim>\<open>invariant\<close>
  (with the message of the call), \<open>TypeError\<close> the engine's error for a property read on
  \<^verbatim>\<open>undefined\<close>/\<^verbatim>\<open>null\<close>, a call of a non-function or the destructuring of a non-iterable,
  and \<open>Error\<close> any other error object, as one made by \<^verbatim>\<open>Error("...")\<close>.
\<close>

datatype js_error = ContractViolation string | TypeError | Error string

datatype jsval =
    JUndefined
  | JNull
  | JBool bool
  | JNum int
  | JStr string
  | JFun nat
  | JBuiltin string
  | JTask nat
  | JObj "(string \<times> jsval) list"
  | JErr js_error

text \<open>A computation either throws a value (\<open>Inl\<close>) or returns (\<open>Inr\<close>).\<close>

type_synonym 'a thrown_or = "jsval + 'a"

text \<open>
  A promise is modelled by its eventual outcome; \<open>Pending\<close> is a promise that never
  settles.
\<close>

datatype 'a promise = Pending | Fulfilled 'a | Rejected jsval

subsection \<open>lodash predicates and JavaScript primitives\<close>

fun isFunction :: "jsval \<Rightarrow> bool" where
  "isFunction (JFun f) = True"
| "isFunction (JBuiltin b) = True"
| "isFunction v = False"

fun isString :: "jsval \<Rightarrow> bool" where
  "isString (JStr s) = True"
| "isString v = False"

text \<open>
  \<^verbatim>\<open>isEmpty\<close> of a string is "has length 0", of a plain object "has no own key"; every
  other value of \<open>jsval\<close> is empty for lodash.
\<close>

fun isEmpty :: "jsval \<Rightarrow> bool" where
  "isEmpty (JStr s) = (s = [])"
| "isEmpty (JObj ps) = (ps = [])"
| "isEmpty v = True"

text \<open>Truthiness, as used by \<^verbatim>\<open>||\<close>, \<^verbatim>\<open>&&\<close> and \<^verbatim>\<open>if\<close>.\<close>

fun truthy :: "jsval \<Rightarrow> bool" where
  "truthy JUndefined = False"
| "truthy JNull = False"
| "truthy (JBool b) = b"
| "truthy (JNum n) = (n \<noteq> 0)"
| "truthy (JStr s) = (s \<noteq> [])"
| "truthy v = True"

text \<open>
  Property read \<^verbatim>\<open>v.p\<close>: a \<^verbatim>\<open>TypeError\<close> on \<^verbatim>\<open>undefined\<close> and \<^verbatim>\<open>null\<close>, the own property
  of an object (\<^verbatim>\<open>undefined\<close> when absent). The properties \<^verbatim>\<open>default\<close>, \<^verbatim>\<open>name\<close>,
  \<^verbatim>\<open>reducer\<close>, \<^verbatim>\<open>saga\<close>, \<^verbatim>\<open>mode\<close> and \<^verbatim>\<open>task\<close> that the library reads are \<^verbatim>\<open>undefined\<close>
  on a primitive; on a function or an error object the model reads \<^verbatim>\<open>undefined\<close> too
  (their \<^verbatim>\<open>name\<close> is read by the library only next to a \<^verbatim>\<open>reducer\<close> and a \<^verbatim>\<open>saga\<close> that
  are \<^verbatim>\<open>undefined\<close>, and is then not used).
\<close>

fun get_prop :: "jsval \<Rightarrow> string \<Rightarrow> jsval thrown_or" where
  "get_prop JUndefined p = Inl (JErr TypeError)"
| "get_prop JNull p = Inl (JErr TypeError)"
| "get_prop (JObj ps) p = Inr (case map_of ps p of None \<Rightarrow> JUndefined | Some v \<Rightarrow> v)"
| "get_prop v p = Inr JUndefined"

text \<open>A property read whose object is known not to be \<^verbatim>\<open>undefined\<close> or \<^verbatim>\<open>null\<close>.\<close>

fun read_prop :: "jsval \<Rightarrow> string \<Rightarrow> jsval" where
  "read_prop (JObj ps) p = (case map_of ps p of None \<Rightarrow> JUndefined | Some v \<Rightarrow> v)"
| "read_prop v p = JUndefined"

text \<open>The string of a key that has passed \<^verbatim>\<open>isString\<close>.\<close>

fun key_of :: "jsval \<Rightarrow> string" where
  "key_of (JStr s) = s"
| "key_of v = []"

section \<open>The store\<close>

definition RESTART_ON_REMOUNT :: string where
  "RESTART_ON_REMOUNT = ''@@saga-injector/restart-on-remount''"

definition DAEMON :: string where
  "DAEMON = ''@@saga-injector/daemon''"

definition ONCE_TILL_UNMOUNT :: string where
  "ONCE_TILL_UNMOUNT = ''@@saga-injector/once-till-unmount''"

definition allowedModes :: "string list" where
  "allowedModes = [RESTART_ON_REMOUNT, DAEMON, ONCE_TILL_UNMOUNT]"

text \<open>
  An entry of \<^verbatim>\<open>store.injectedSagas\<close> is what the library itself stores there: the
  descriptor \<^verbatim>\<open>{ saga, mode, task }\<close> written by \<^verbatim>\<open>injectSaga\<close>, or the string \<^verbatim>\<open>'done'\<close>
  written by \<^verbatim>\<open>ejectSaga\<close> in a production build. A task is the handle returned by
  \<^verbatim>\<open>store.runSaga\<close>, named by a number.
\<close>

datatype saga_entry =
    Descriptor (entry_saga: jsval) (entry_mode: string) (entry_task: nat)
  | Done

text \<open>
  The calls the library makes on the outside world, in order:
  \<^verbatim>\<open>store.replaceReducer(r)\<close>, \<^verbatim>\<open>store.runSaga(saga, args)\<close> with the task it
  returned, and \<^verbatim>\<open>task.cancel()\<close>; \<open>CallFunction\<close> is the call of any other function value
  that the library finds as the \<^verbatim>\<open>cancel\<close> property of an object.
\<close>

datatype call =
    ReplaceReducer jsval
  | RunSaga jsval jsval nat
  | Cancel nat
  | CallFunction jsval

text \<open>
  \<^verbatim>\<open>store.injectedSagas\<close> is a plain object, and \<^verbatim>\<open>Reflect.has\<close> and a property read see the
  properties it inherits as well as its own. Its prototype is \<^verbatim>\<open>null\<close> (a mapping made by
  \<^verbatim>\<open>Object.create(null)\<close>), \<^verbatim>\<open>Object.prototype\<close> (a mapping made by \<^verbatim>\<open>{}\<close>), or, once the
  library has assigned a descriptor to the key \<^verbatim>\<open>__proto__\<close> (whose setter on
  \<^verbatim>\<open>Object.prototype\<close> replaces the prototype), that descriptor object, given by its own
  properties, whose own prototype is \<^verbatim>\<open>Object.prototype\<close>.
\<close>

datatype prototype =
    NullPrototype
  | ObjectPrototype
  | DescriptorPrototype "(string \<times> jsval) list"

text \<open>The methods of \<^verbatim>\<open>Object.prototype\<close>; \<^verbatim>\<open>__proto__\<close> is its one accessor property.\<close>

definition Object_prototype_functions :: "string list" where
  "Object_prototype_functions =
     [''constructor'', ''hasOwnProperty'', ''isPrototypeOf'', ''propertyIsEnumerable'',
      ''toLocaleString'', ''toString'', ''valueOf'', ''__defineGetter__'',
      ''__defineSetter__'', ''__lookupGetter__'', ''__lookupSetter__'']"

definition Object_prototype :: jsval where
  "Object_prototype = JObj (map (\<lambda>n. (n, JBuiltin n)) Object_prototype_functions)"

text \<open>Whether a property name is inherited through the prototype, and the value read.\<close>

fun inherited_has :: "prototype \<Rightarrow> string \<Rightarrow> bool" where
  "inherited_has NullPrototype k = False"
| "inherited_has ObjectPrototype k =
     (k = ''__proto__'' \<or> k \<in> set Object_prototype_functions)"
| "inherited_has (DescriptorPrototype ps) k =
     (k \<in> dom (map_of ps) \<or> k = ''__proto__'' \<or> k \<in> set Object_prototype_functions)"

fun inherited_get :: "prototype \<Rightarrow> string \<Rightarrow> jsval" where
  "inherited_get NullPrototype k = JUndefined"
| "inherited_get ObjectPrototype k =
     (if k = ''__proto__'' then Object_prototype
      else if k \<in> set Object_prototype_functions then JBuiltin k
      else JUndefined)"
| "inherited_get (DescriptorPrototype ps) k =
     (case map_of ps k of
        Some v \<Rightarrow> v
      | None \<Rightarrow>
          if k = ''__proto__'' then JObj ps
          else if k \<in> set Object_prototype_functions then JBuiltin k
          else JUndefined)"

text \<open>
  Whether an assignment to the key \<^verbatim>\<open>__proto__\<close> that finds no own property reaches the
  setter of \<^verbatim>\<open>Object.prototype\<close>.
\<close>

fun has_proto_setter :: "prototype \<Rightarrow> bool" where
  "has_proto_setter NullPrototype = False"
| "has_proto_setter ObjectPrototype = True"
| "has_proto_setter (DescriptorPrototype ps) = (''__proto__'' \<notin> dom (map_of ps))"

text \<open>An entry as the JavaScript value it is.\<close>

fun entry_value :: "saga_entry \<Rightarrow> jsval" where
  "entry_value (Descriptor saga mode task) =
     JObj [(''saga'', saga), (''mode'', JStr mode), (''task'', JTask task)]"
| "entry_value Done = JStr ''done''"

text \<open>
  The store has the five function members and the two mappings that \<^verbatim>\<open>checkStore\<close>
  asks for. A function member holds any value (\<^verbatim>\<open>undefined\<close> when it is missing); a
  mapping is \<open>None\<close> when the member is missing or is not an object.
  \<open>injectedReducers\<close> is \<^verbatim>\<open>store.injectedReducers\<close> as a dictionary from property names to
  values, without inherited properties. \<open>injectedSagas\<close> holds the own properties of
  \<^verbatim>\<open>store.injectedSagas\<close>, and \<open>sagasPrototype\<close> is the prototype of that object. \<open>calls\<close>
  is the log of the calls made so far; it is not a member of the JavaScript object.
\<close>

record store =
  dispatch :: jsval
  subscribe :: jsval
  getState :: jsval
  replaceReducer :: jsval
  runSaga :: jsval
  injectedReducers :: "(string \<rightharpoonup> jsval) option"
  injectedSagas :: "(string \<rightharpoonup> saga_entry) option"
  sagasPrototype :: prototype
  calls :: "call list"

text \<open>An operation on the store throws or returns, and leaves a store behind.\<close>

type_synonym 'a eff = "store \<Rightarrow> 'a thrown_or \<times> store"

definition invariant :: "bool \<Rightarrow> string \<Rightarrow> unit thrown_or" where
  "invariant condition message =
     (if condition then Inr () else Inl (JErr (ContractViolation message)))"

definition checkStore :: "store \<Rightarrow> unit thrown_or" where
  "checkStore s =
     invariant
       (isFunction (dispatch s) \<and> isFunction (subscribe s) \<and> isFunction (getState s) \<and>
        isFunction (replaceReducer s) \<and> isFunction (runSaga s) \<and>
        injectedReducers s \<noteq> None \<and> injectedSagas s \<noteq> None)
       ''(app/utils...) injectors: Expected a valid redux store''"

section \<open>Reducer injector\<close>

text \<open>
  \<^verbatim>\<open>injectReducerFactory(store, isValid, createReducer)\<close> returns the closure
  \<^verbatim>\<open>injectReducer(key, reducer)\<close>; the store is the state the closure works on.
  \<^verbatim>\<open>Reflect.has\<close> and a call of a member that is not a function throw a \<^verbatim>\<open>TypeError\<close>.
\<close>

definition injectReducerFactory ::
  "bool \<Rightarrow> ((string \<rightharpoonup> jsval) \<Rightarrow> jsval) \<Rightarrow> jsval \<Rightarrow> jsval \<Rightarrow> unit eff" where
  "injectReducerFactory isValid createReducer key reducer s =
     (case (if \<not> isValid then checkStore s else Inr ()) of
        Inl e \<Rightarrow> (Inl e, s)
      | Inr _ \<Rightarrow>
     (case invariant (isString key \<and> \<not> isEmpty key \<and> isFunction reducer)
             ''(app/utils...) injectReducer: Expected `reducer` to be a reducer function'' of
        Inl e \<Rightarrow> (Inl e, s)
      | Inr _ \<Rightarrow>
     (case injectedReducers s of
        None \<Rightarrow> (Inl (JErr TypeError), s)
      | Some m \<Rightarrow>
          if key_of key \<in> dom m \<and> m (key_of key) = Some reducer then (Inr (), s)
          else
            let m' = m(key_of key \<mapsto> reducer);
                s' = s\<lparr>injectedReducers := Some m'\<rparr>
            in if isFunction (replaceReducer s')
               then (Inr (), s'\<lparr>calls := calls s' @ [ReplaceReducer (createReducer m')]\<rparr>)
               else (Inl (JErr TypeError), s'))))"

text \<open>\<^verbatim>\<open>reducerInjectors(store, reducers)\<close>: validate the store, return the closure.\<close>

definition reducerInjectors ::
  "((string \<rightharpoonup> jsval) \<Rightarrow> jsval) \<Rightarrow> (jsval \<Rightarrow> jsval \<Rightarrow> unit eff) eff" where
  "reducerInjectors reducers s =
     (case checkStore s of
        Inl e \<Rightarrow> (Inl e, s)
      | Inr _ \<Rightarrow> (Inr (injectReducerFactory True reducers), s))"

section \<open>Saga injector and ejector\<close>

definition checkKey :: "jsval \<Rightarrow> unit thrown_or" where
  "checkKey key =
     invariant (isString key \<and> \<not> isEmpty key)
       ''(app/utils...) injectSaga: Expected `key` to be a non empty string''"

definition checkDescriptor :: "jsval \<Rightarrow> unit thrown_or" where
  "checkDescriptor descriptor =
     invariant
       (isFunction (read_prop descriptor ''saga'') \<and>
        (isString (read_prop descriptor ''mode'') \<and>
         key_of (read_prop descriptor ''mode'') \<in> set allowedModes))
       ''(app/utils...) injectSaga: Expected a valid saga descriptor''"

text \<open>The own properties copied by an object spread \<^verbatim>\<open>{ ...v }\<close>.\<close>

fun spread :: "jsval \<Rightarrow> (string \<times> jsval) list" where
  "spread (JObj ps) = ps"
| "spread v = []"

text \<open>
  \<^verbatim>\<open>Reflect.has(store.injectedSagas, key)\<close> and the read \<^verbatim>\<open>store.injectedSagas[key]\<close>: an own
  property comes before an inherited one.
\<close>

definition Reflect_has :: "(string \<rightharpoonup> saga_entry) \<Rightarrow> prototype \<Rightarrow> string \<Rightarrow> bool" where
  "Reflect_has m p k = (k \<in> dom m \<or> inherited_has p k)"

definition sagas_get :: "(string \<rightharpoonup> saga_entry) \<Rightarrow> prototype \<Rightarrow> string \<Rightarrow> jsval" where
  "sagas_get m p k = (case m k of Some e \<Rightarrow> entry_value e | None \<Rightarrow> inherited_get p k)"

text \<open>
  The assignment \<^verbatim>\<open>store.injectedSagas[key] = value\<close>, for a value that is an entry, with the
  own properties of the value when it is an object. An own property is overwritten. With
  no own property, the key \<^verbatim>\<open>__proto__\<close> reaches the setter of \<^verbatim>\<open>Object.prototype\<close>, which makes
  an object the new prototype of the mapping and ignores the string \<^verbatim>\<open>'done'\<close>; under any
  other key a new own property is made (the inherited properties are writable data
  properties).
\<close>

definition assign_saga :: "string \<Rightarrow> saga_entry \<Rightarrow> (string \<times> jsval) list \<Rightarrow> store \<Rightarrow> store" where
  "assign_saga k entry properties s =
     (case injectedSagas s of
        None \<Rightarrow> s
      | Some m \<Rightarrow>
          if k \<in> dom m then s\<lparr>injectedSagas := Some (m(k \<mapsto> entry))\<rparr>
          else if k = ''__proto__'' \<and> has_proto_setter (sagasPrototype s)
          then (case entry of
                  Descriptor saga mode task \<Rightarrow> s\<lparr>sagasPrototype := DescriptorPrototype properties\<rparr>
                | Done \<Rightarrow> s)
          else s\<lparr>injectedSagas := Some (m(k \<mapsto> entry))\<rparr>)"

text \<open>
  The method call \<^verbatim>\<open>task.cancel()\<close> on a value: logged as \<open>Cancel\<close> for a task object, as
  \<open>CallFunction\<close> for an object with a function as \<^verbatim>\<open>cancel\<close> property, a \<^verbatim>\<open>TypeError\<close> for
  every other value (\<^verbatim>\<open>undefined\<close> has no properties, and the \<^verbatim>\<open>cancel\<close> of the others is not
  a function).
\<close>

fun call_cancel :: "jsval \<Rightarrow> call list \<Rightarrow> unit thrown_or \<times> call list" where
  "call_cancel (JTask task) cs = (Inr (), cs @ [Cancel task])"
| "call_cancel (JObj ps) cs =
     (case map_of ps ''cancel'' of
        Some f \<Rightarrow>
          if isFunction f then (Inr (), cs @ [CallFunction f])
          else (Inl (JErr TypeError), cs)
      | None \<Rightarrow> (Inl (JErr TypeError), cs))"
| "call_cancel v cs = (Inl (JErr TypeError), cs)"

text \<open>
  The first statement of \<^verbatim>\<open>injectSaga(key, descriptor = {}, args)\<close>:
  \<^verbatim>\<open>{ ...descriptor, mode: descriptor.mode || DAEMON }\<close>. The default \<^verbatim>\<open>{}\<close> stands in for
  an \<^verbatim>\<open>undefined\<close> argument only, so \<^verbatim>\<open>descriptor.mode\<close> throws a \<^verbatim>\<open>TypeError\<close> on \<^verbatim>\<open>null\<close>.
\<close>

definition newDescriptor :: "jsval \<Rightarrow> jsval thrown_or" where
  "newDescriptor descriptor0 =
     (let descriptor = (if descriptor0 = JUndefined then JObj [] else descriptor0) in
      case get_prop descriptor ''mode'' of
        Inl e \<Rightarrow> Inl e
      | Inr dmode \<Rightarrow>
          Inr (JObj ((''mode'', if truthy dmode then dmode else JStr DAEMON)
                     # spread descriptor)))"

text \<open>
  \<^verbatim>\<open>injectSagaFactory(store, isValid)\<close> returns \<^verbatim>\<open>injectSaga\<close>.
  \<open>production\<close> is \<^verbatim>\<open>process.env.NODE_ENV === 'production'\<close>. The steps are those of the
  source, in its order: the store check, the new descriptor, the two checks,
  \<^verbatim>\<open>Reflect.has\<close>, the hot-reload block (the reads \<^verbatim>\<open>oldDescriptor.saga\<close> and
  \<^verbatim>\<open>oldDescriptor.task.cancel()\<close> throw a \<^verbatim>\<open>TypeError\<close> on a value without them, as the string
  \<^verbatim>\<open>'done'\<close> and the inherited methods have no task), and the start of the saga. The task
  returned by \<^verbatim>\<open>store.runSaga\<close> is a new one: its number is the length of the log.
\<close>

definition injectSagaFactory ::
  "bool \<Rightarrow> bool \<Rightarrow> jsval \<Rightarrow> jsval \<Rightarrow> jsval \<Rightarrow> unit eff" where
  "injectSagaFactory production isValid key descriptor args s =
     (case (if \<not> isValid then checkStore s else Inr ()) of
        Inl e \<Rightarrow> (Inl e, s)
      | Inr _ \<Rightarrow>
     (case newDescriptor descriptor of
        Inl e \<Rightarrow> (Inl e, s)
      | Inr newDescriptor' \<Rightarrow>
     (let saga = read_prop newDescriptor' ''saga'';
          mode = read_prop newDescriptor' ''mode''
      in
      case checkKey key of
        Inl e \<Rightarrow> (Inl e, s)
      | Inr _ \<Rightarrow>
     (case checkDescriptor newDescriptor' of
        Inl e \<Rightarrow> (Inl e, s)
      | Inr _ \<Rightarrow>
     (case injectedSagas s of
        None \<Rightarrow> (Inl (JErr TypeError), s)
      | Some m \<Rightarrow>
     (let hasSaga = Reflect_has m (sagasPrototype s) (key_of key) in
      case (if \<not> production
            then
              (let oldDescriptor = sagas_get m (sagasPrototype s) (key_of key) in
               if hasSaga
               then (case get_prop oldDescriptor ''saga'' of
                       Inl e \<Rightarrow> (Inl e, s)
                     | Inr osaga \<Rightarrow>
                         if osaga \<noteq> saga
                         then (case call_cancel (read_prop oldDescriptor ''task'') (calls s) of
                                 (Inl e, cs) \<Rightarrow> (Inl e, s\<lparr>calls := cs\<rparr>)
                               | (Inr _, cs) \<Rightarrow> (Inr False, s\<lparr>calls := cs\<rparr>))
                         else (Inr hasSaga, s))
               else (Inr hasSaga, s))
            else (Inr hasSaga, s)) of
        (Inl e, s1) \<Rightarrow> (Inl e, s1)
      | (Inr hasSaga1, s1) \<Rightarrow>
          if \<not> hasSaga1 \<or> (hasSaga1 \<and> mode \<noteq> JStr DAEMON \<and> mode \<noteq> JStr ONCE_TILL_UNMOUNT)
          then
            if isFunction (runSaga s1)
            then
              let task = length (calls s1) in
              (Inr (),
               assign_saga (key_of key) (Descriptor saga (key_of mode) task)
                 ((''task'', JTask task) # spread newDescriptor')
                 (s1\<lparr>calls := calls s1 @ [RunSaga saga args task]\<rparr>))
            else (Inl (JErr TypeError), s1)
          else (Inr (), s1)))))))"

text \<open>
  \<^verbatim>\<open>ejectSagaFactory(store, isValid)\<close> returns \<^verbatim>\<open>ejectSaga(key)\<close>. \<^verbatim>\<open>descriptor.mode\<close> of the
  string \<^verbatim>\<open>'done'\<close> and of an inherited method is \<^verbatim>\<open>undefined\<close>, which is falsy.
\<close>

definition ejectSagaFactory :: "bool \<Rightarrow> bool \<Rightarrow> jsval \<Rightarrow> unit eff" where
  "ejectSagaFactory production isValid key s =
     (case (if \<not> isValid then checkStore s else Inr ()) of
        Inl e \<Rightarrow> (Inl e, s)
      | Inr _ \<Rightarrow>
     (case checkKey key of
        Inl e \<Rightarrow> (Inl e, s)
      | Inr _ \<Rightarrow>
     (case injectedSagas s of
        None \<Rightarrow> (Inl (JErr TypeError), s)
      | Some m \<Rightarrow>
          if Reflect_has m (sagasPrototype s) (key_of key)
          then
            (let descriptor = sagas_get m (sagasPrototype s) (key_of key) in
             case get_prop descriptor ''mode'' of
               Inl e \<Rightarrow> (Inl e, s)
             | Inr mode \<Rightarrow>
                 if truthy mode \<and> mode \<noteq> JStr DAEMON
                 then (case call_cancel (read_prop descriptor ''task'') (calls s) of
                         (Inl e, cs) \<Rightarrow> (Inl e, s\<lparr>calls := cs\<rparr>)
                       | (Inr _, cs) \<Rightarrow>
                           if production
                           then (Inr (), assign_saga (key_of key) Done [] (s\<lparr>calls := cs\<rparr>))
                           else (Inr (), s\<lparr>calls := cs\<rparr>))
                 else (Inr (), s))
          else (Inr (), s))))"

text \<open>\<^verbatim>\<open>sagaInjectors(store)\<close>: validate the store, return the two closures.\<close>

definition sagaInjectors ::
  "bool \<Rightarrow> ((jsval \<Rightarrow> jsval \<Rightarrow> jsval \<Rightarrow> unit eff) \<times> (jsval \<Rightarrow> unit eff)) eff" where
  "sagaInjectors production s =
     (case checkStore s of
        Inl e \<Rightarrow> (Inl e, s)
      | Inr _ \<Rightarrow>
          (Inr (injectSagaFactory production True, ejectSagaFactory production True), s))"

section \<open>Lazily loaded routes\<close>

subsection \<open>Promises\<close>

text \<open>
  \<^verbatim>\<open>Promise.all\<close> depends on the order in which its promises settle, so each promise of
  the array comes with the time at which it settles (of no meaning for a pending one; a
  value that is not a promise, and a promise that has settled before the call, settle at
  time 0). \<^verbatim>\<open>Promise.all\<close> is rejected as soon as one promise is rejected, also while another
  is pending, with the error of the rejection that is earliest in time (of the first in the
  array among those of the same time, whose reactions run in the order of the array);
  without a rejection it is pending while one promise is pending, and otherwise fulfilled
  with the values in the order of the array.
\<close>

type_synonym 'a timed_promise = "nat \<times> 'a promise"

fun earliest_rejection :: "'a timed_promise list \<Rightarrow> (nat \<times> jsval) option" where
  "earliest_rejection [] = None"
| "earliest_rejection ((t, Rejected e) # ps) =
     (case earliest_rejection ps of
        None \<Rightarrow> Some (t, e)
      | Some (t', e') \<Rightarrow> if t' < t then Some (t', e') else Some (t, e))"
| "earliest_rejection (p # ps) = earliest_rejection ps"

fun fulfilled_values :: "'a timed_promise list \<Rightarrow> 'a list option" where
  "fulfilled_values [] = Some []"
| "fulfilled_values ((t, Fulfilled v) # ps) =
     (case fulfilled_values ps of None \<Rightarrow> None | Some vs \<Rightarrow> Some (v # vs))"
| "fulfilled_values (p # ps) = None"

definition promise_all :: "'a timed_promise list \<Rightarrow> 'a list promise" where
  "promise_all ps =
     (case earliest_rejection ps of
        Some (t, e) \<Rightarrow> Rejected e
      | None \<Rightarrow> (case fulfilled_values ps of None \<Rightarrow> Pending | Some vs \<Rightarrow> Fulfilled vs))"

text \<open>
  \<^verbatim>\<open>p.then(f)\<close>: the callback runs when \<open>p\<close> is fulfilled; what it throws rejects the new
  promise. \<open>then_eff\<close> is for a callback that works on the store.
\<close>

definition then_p :: "'a promise \<Rightarrow> ('a \<Rightarrow> 'b thrown_or) \<Rightarrow> 'b promise" where
  "then_p p onFulfilled =
     (case p of
        Pending \<Rightarrow> Pending
      | Rejected e \<Rightarrow> Rejected e
      | Fulfilled v \<Rightarrow> (case onFulfilled v of Inl e \<Rightarrow> Rejected e | Inr r \<Rightarrow> Fulfilled r))"

definition then_eff :: "'a promise \<Rightarrow> ('a \<Rightarrow> 'b eff) \<Rightarrow> store \<Rightarrow> 'b promise \<times> store" where
  "then_eff p onFulfilled s =
     (case p of
        Pending \<Rightarrow> (Pending, s)
      | Rejected e \<Rightarrow> (Rejected e, s)
      | Fulfilled v \<Rightarrow>
          (case onFulfilled v s of
             (Inl e, s') \<Rightarrow> (Rejected e, s')
           | (Inr r, s') \<Rightarrow> (Fulfilled r, s')))"

text \<open>\<^verbatim>\<open>p.catch(f)\<close>: the callback runs when \<open>p\<close> is rejected.\<close>

definition catch_p :: "'a promise \<Rightarrow> (jsval \<Rightarrow> 'a thrown_or) \<Rightarrow> 'a promise" where
  "catch_p p onRejected =
     (case p of
        Pending \<Rightarrow> Pending
      | Fulfilled v \<Rightarrow> Fulfilled v
      | Rejected e \<Rightarrow> (case onRejected e of Inl e' \<Rightarrow> Rejected e' | Inr r \<Rightarrow> Fulfilled r))"

subsection \<open>applyPromise\<close>

text \<open>\<^verbatim>\<open>chunk.default || chunk\<close>; the property read throws on \<^verbatim>\<open>undefined\<close> and \<^verbatim>\<open>null\<close>.\<close>

definition chunk_export :: "jsval \<Rightarrow> jsval thrown_or" where
  "chunk_export chunk =
     (case get_prop chunk ''default'' of
        Inl e \<Rightarrow> Inl e
      | Inr d \<Rightarrow> Inr (if truthy d then d else chunk))"

text \<open>The body of the \<^verbatim>\<open>forEach\<close> callback, for one chunk.\<close>

definition inject_chunk ::
  "(jsval \<Rightarrow> jsval \<Rightarrow> unit eff) \<Rightarrow> (jsval \<Rightarrow> jsval \<Rightarrow> jsval \<Rightarrow> unit eff) \<Rightarrow> jsval \<Rightarrow> unit eff" where
  "inject_chunk injectReducer injectSaga chunk s =
     (case chunk_export chunk of
        Inl e \<Rightarrow> (Inl e, s)
      | Inr src \<Rightarrow>
     (let name = read_prop src ''name'';
          reducer = read_prop src ''reducer'';
          saga = read_prop src ''saga''
      in
      case (if truthy reducer then injectReducer name reducer s else (Inr (), s)) of
        (Inl e, s1) \<Rightarrow> (Inl e, s1)
      | (Inr _, s1) \<Rightarrow>
          if truthy saga then injectSaga name (JObj [(''saga'', saga)]) JUndefined s1
          else (Inr (), s1)))"

text \<open>\<^verbatim>\<open>chunks.forEach(...)\<close>: the chunks in the order of the array, up to the first throw.\<close>

fun forEach_chunks ::
  "(jsval \<Rightarrow> jsval \<Rightarrow> unit eff) \<Rightarrow> (jsval \<Rightarrow> jsval \<Rightarrow> jsval \<Rightarrow> unit eff) \<Rightarrow> jsval list \<Rightarrow> unit eff" where
  "forEach_chunks injectReducer injectSaga [] s = (Inr (), s)"
| "forEach_chunks injectReducer injectSaga (chunk # chunks) s =
     (case inject_chunk injectReducer injectSaga chunk s of
        (Inl e, s1) \<Rightarrow> (Inl e, s1)
      | (Inr _, s1) \<Rightarrow> forEach_chunks injectReducer injectSaga chunks s1)"

text \<open>\<^verbatim>\<open>chunks.map((chunk) => chunk.default || chunk)\<close>.\<close>

fun map_exports :: "jsval list \<Rightarrow> jsval list thrown_or" where
  "map_exports [] = Inr []"
| "map_exports (chunk # chunks) =
     (case chunk_export chunk of
        Inl e \<Rightarrow> Inl e
      | Inr v \<Rightarrow> (case map_exports chunks of Inl e \<Rightarrow> Inl e | Inr vs \<Rightarrow> Inr (v # vs)))"

text \<open>
  The \<^verbatim>\<open>try\<close> block: \<^verbatim>\<open>containerProvider.apply(promiseContainer.default, ...)\<close>, with every
  throw caught and returned. The container loader is a function of the caller: it gets
  \<^verbatim>\<open>this\<close> and the arguments, and throws or returns.
\<close>

type_synonym loader = "jsval \<Rightarrow> jsval list \<Rightarrow> jsval thrown_or"

definition construct :: "loader \<Rightarrow> jsval \<Rightarrow> jsval list \<Rightarrow> jsval" where
  "construct containerProvider promiseContainer chunks =
     (case get_prop promiseContainer ''default'' of
        Inl error \<Rightarrow> error
      | Inr this \<Rightarrow>
     (case map_exports chunks of
        Inl error \<Rightarrow> error
      | Inr exports \<Rightarrow>
     (case containerProvider this exports of
        Inl error \<Rightarrow> error
      | Inr finalContainer \<Rightarrow> finalContainer)))"

text \<open>
  \<^verbatim>\<open>applyPromise({ injectReducer, injectSaga, container, require })\<close>. \<open>require\<close> is
  \<open>None\<close> when the field is absent or falsy: then \<^verbatim>\<open>require || {}\<close> is an object, and the
  array pattern throws a \<^verbatim>\<open>TypeError\<close> since an object is not iterable. An empty array gives
  \<^verbatim>\<open>promises = [undefined]\<close>.
\<close>

definition applyPromise ::
  "(jsval \<Rightarrow> jsval \<Rightarrow> unit eff) \<Rightarrow> (jsval \<Rightarrow> jsval \<Rightarrow> jsval \<Rightarrow> unit eff) \<Rightarrow>
   loader \<Rightarrow> jsval timed_promise list option \<Rightarrow> jsval promise eff" where
  "applyPromise injectReducer injectSaga container require s =
     (case require of
        None \<Rightarrow> (Inl (JErr TypeError), s)
      | Some ps \<Rightarrow>
     (let promises =
            (case ps of
               [] \<Rightarrow> [(0, Fulfilled JUndefined)]
             | containerPromise # chunksPromise \<Rightarrow> containerPromise # chunksPromise)
      in
      case then_eff (promise_all promises)
             (\<lambda>values s0.
                let promiseContainer = (case values of [] \<Rightarrow> JUndefined | v # vs \<Rightarrow> v);
                    chunks = (case values of [] \<Rightarrow> [] | v # vs \<Rightarrow> vs)
                in
                case forEach_chunks injectReducer injectSaga chunks s0 of
                  (Inl e, s1) \<Rightarrow> (Inl e, s1)
                | (Inr _, s1) \<Rightarrow> (Inr (construct container promiseContainer chunks), s1))
             s of
        (p, s') \<Rightarrow> (Inr (catch_p p (\<lambda>error. Inr error)), s')))"

subsection \<open>routeProvider\<close>

text \<open>
  The \<^verbatim>\<open>container\<close> of a route configuration: a loader function, a promise, or any other
  value, whose \<^verbatim>\<open>.then\<close> is not a function.
\<close>

datatype container = Loader loader | PromiseOf "jsval promise" | NotThenable jsval

record route_config =
  path :: jsval
  pageName :: jsval
  exact :: jsval
  require :: "jsval timed_promise list option"
  container :: container
  childRoutes :: jsval
  data :: jsval
  props :: "(string \<times> jsval) list"

record route_descriptor =
  route_path :: jsval
  route_pageName :: jsval
  route_exact :: jsval
  Component :: "jsval promise eff"
  route_childRoutes :: jsval
  route_data :: jsval
  route_props :: "(string \<times> jsval) list"

definition routeProvider ::
  "(jsval \<Rightarrow> jsval \<Rightarrow> unit eff) \<Rightarrow> (jsval \<Rightarrow> jsval \<Rightarrow> jsval \<Rightarrow> unit eff) \<Rightarrow>
   ((jsval \<Rightarrow> jsval \<Rightarrow> unit eff) \<Rightarrow> (jsval \<Rightarrow> jsval \<Rightarrow> jsval \<Rightarrow> unit eff) \<Rightarrow>
    loader \<Rightarrow> jsval timed_promise list option \<Rightarrow> jsval promise eff) \<Rightarrow>
   route_config \<Rightarrow> route_descriptor" where
  "routeProvider injectReducer injectSaga applyPromise' config =
     \<lparr>route_path = path config,
      route_pageName = pageName config,
      route_exact = exact config,
      Component =
        (\<lambda>s. case container config of
                Loader f \<Rightarrow> applyPromise' injectReducer injectSaga f (require config) s
              | PromiseOf p \<Rightarrow>
                  (Inr (catch_p
                          (then_p p (\<lambda>defaultContainer. get_prop defaultContainer ''default''))
                          (\<lambda>error. Inr error)), s)
              | NotThenable v \<Rightarrow> (Inl (JErr TypeError), s)),
      route_childRoutes = childRoutes config,
      route_data = data config,
      route_props = props config\<rparr>"

text \<open>\<^verbatim>\<open>simpleLazyLoadedRoute(store, reducers)\<close>, the default export.\<close>

definition simpleLazyLoadedRoute ::
  "bool \<Rightarrow> ((string \<rightharpoonup> jsval) \<Rightarrow> jsval) \<Rightarrow> (route_config \<Rightarrow> route_descriptor) eff" where
  "simpleLazyLoadedRoute production reducers s =
     (case reducerInjectors reducers s of
        (Inl e, s1) \<Rightarrow> (Inl e, s1)
      | (Inr injectReducer, s1) \<Rightarrow>
     (case sagaInjectors production s1 of
        (Inl e, s2) \<Rightarrow> (Inl e, s2)
      | (Inr (injectSaga, ejectSaga), s2) \<Rightarrow>
          (Inr (routeProvider injectReducer injectSaga applyPromise), s2)))"

section \<open>Observations on the log, and a store to run on\<close>


fun is_RunSaga :: "call \<Rightarrow> bool" where
  "is_RunSaga (RunSaga saga args task) = True"
| "is_RunSaga c = False"


definition count_runSaga :: "call list \<Rightarrow> nat" where
  "count_runSaga cs = length (filter is_RunSaga cs)"


text \<open>
  A valid store on which nothing has been injected yet; its saga mapping has been made by
  \<^verbatim>\<open>{}\<close>.
\<close>

definition fresh_store :: store where
  "fresh_store =
     \<lparr>dispatch = JFun 0, subscribe = JFun 1, getState = JFun 2, replaceReducer = JFun 3,
      runSaga = JFun 4, injectedReducers = Some Map.empty, injectedSagas = Some Map.empty,
      sagasPrototype = ObjectPrototype, calls = []\<rparr>"

section \<open>Definitions for the saga properties\<close>

fun is_Cancel :: "call \<Rightarrow> bool" where
  "is_Cancel (Cancel task) = True"
| "is_Cancel c = False"

text \<open>The entry of \<^verbatim>\<open>store.injectedSagas\<close> at a key, if there is one.\<close>

definition saga_at :: "store \<Rightarrow> string \<Rightarrow> saga_entry option" where
  "saga_at s k = (case injectedSagas s of None \<Rightarrow> None | Some m \<Rightarrow> m k)"


text \<open>\<^verbatim>\<open>oldDescriptor.saga\<close> of an own entry.\<close>

fun old_saga :: "saga_entry option \<Rightarrow> jsval" where
  "old_saga (Some (Descriptor saga mode task)) = saga"
| "old_saga e = JUndefined"

text \<open>
  The saga and the mode that a call \<^verbatim>\<open>injectSaga(key, descriptor)\<close> asks for: the mode is that
  of the descriptor, and \<^verbatim>\<open>DAEMON\<close> when the descriptor has none. A valid descriptor has a
  function as saga and one of the three modes.
\<close>

definition requested_saga :: "jsval \<Rightarrow> jsval" where
  "requested_saga descriptor = read_prop descriptor ''saga''"

definition requested_mode :: "jsval \<Rightarrow> string" where
  "requested_mode descriptor =
     (if truthy (read_prop descriptor ''mode'') then key_of (read_prop descriptor ''mode'')
      else DAEMON)"

definition valid_descriptor :: "jsval \<Rightarrow> bool" where
  "valid_descriptor descriptor =
     (isFunction (requested_saga descriptor) \<and>
      (\<not> truthy (read_prop descriptor ''mode'') \<or> isString (read_prop descriptor ''mode'')) \<and>
      requested_mode descriptor \<in> set allowedModes)"

text \<open>
  The value of \<^verbatim>\<open>hasSaga\<close> after the hot-reload block of \<^verbatim>\<open>injectSaga\<close>, for a key that is an
  own property of the mapping or no property of it: the key is in the mapping, and the
  block (run in a non-production build when the stored saga is another reference) has not
  reset the flag.
\<close>

definition hasSaga_after_hot_reload ::
  "bool \<Rightarrow> (string \<rightharpoonup> saga_entry) \<Rightarrow> string \<Rightarrow> jsval \<Rightarrow> bool" where
  "hasSaga_after_hot_reload production m k saga =
     (k \<in> dom m \<and> \<not> (\<not> production \<and> old_saga (m k) \<noteq> saga))"

text \<open>
  The start policy: no entry at the key after the hot-reload check, or a new mode that is
  neither \<^verbatim>\<open>DAEMON\<close> nor \<^verbatim>\<open>ONCE_TILL_UNMOUNT\<close>.
\<close>

definition start_condition ::
  "bool \<Rightarrow> (string \<rightharpoonup> saga_entry) \<Rightarrow> jsval \<Rightarrow> jsval \<Rightarrow> bool" where
  "start_condition production m key descriptor =
     (\<not> hasSaga_after_hot_reload production m (key_of key) (requested_saga descriptor) \<or>
      (requested_mode descriptor \<noteq> DAEMON \<and>
       requested_mode descriptor \<noteq> ONCE_TILL_UNMOUNT))"

text \<open>
  "The call has started the saga": one more \<^verbatim>\<open>store.runSaga\<close> call in the log, the last call
  of the log is \<^verbatim>\<open>runSaga(saga, args)\<close>, and the task it returned is recorded at the key,
  with the saga and the mode that the call asked for.
\<close>

definition started :: "store \<Rightarrow> store \<Rightarrow> jsval \<Rightarrow> jsval \<Rightarrow> jsval \<Rightarrow> bool" where
  "started s s' key descriptor args =
     (count_runSaga (calls s') = count_runSaga (calls s) + 1 \<and> calls s' \<noteq> [] \<and>
      (case last (calls s') of
         RunSaga saga args' task \<Rightarrow>
           saga = requested_saga descriptor \<and> args' = args \<and>
           saga_at s' (key_of key) =
             Some (Descriptor (requested_saga descriptor) (requested_mode descriptor) task)
       | _ \<Rightarrow> False))"

text \<open>Descriptors and stores to run on.\<close>

definition once_descriptor :: jsval where
  "once_descriptor = JObj [(''saga'', JFun 10), (''mode'', JStr ONCE_TILL_UNMOUNT)]"

definition daemon_descriptor :: jsval where
  "daemon_descriptor = JObj [(''saga'', JFun 11)]"

definition restart_descriptor :: jsval where
  "restart_descriptor = JObj [(''saga'', JFun 12), (''mode'', JStr RESTART_ON_REMOUNT)]"

definition once_injected :: store where
  "once_injected =
     snd (injectSagaFactory True True (JStr ''k'') once_descriptor JUndefined fresh_store)"

definition once_ejected :: store where
  "once_ejected = snd (ejectSagaFactory True True (JStr ''k'') once_injected)"

definition restart_injected_dev :: store where
  "restart_injected_dev =
     snd (injectSagaFactory False True (JStr ''k'') restart_descriptor JUndefined fresh_store)"

definition daemon_injected :: store where
  "daemon_injected =
     snd (injectSagaFactory False True (JStr ''k'') daemon_descriptor JUndefined fresh_store)"

section \<open>Definitions for the validation and route properties\<close>

text \<open>The thrown value is the error of a failed \<^verbatim>\<open>invariant\<close>.\<close>

fun is_ContractViolation :: "'a thrown_or \<Rightarrow> bool" where
  "is_ContractViolation (Inl (JErr (ContractViolation message))) = True"
| "is_ContractViolation r = False"

text \<open>
  A descriptor argument that \<^verbatim>\<open>injectSaga\<close> rejects: \<^verbatim>\<open>null\<close>, or one whose new descriptor
  fails \<^verbatim>\<open>checkDescriptor\<close>.
\<close>

definition invalid_descriptor :: "jsval \<Rightarrow> bool" where
  "invalid_descriptor descriptor =
     (case newDescriptor descriptor of
        Inl e \<Rightarrow> True
      | Inr newDescriptor' \<Rightarrow> checkDescriptor newDescriptor' \<noteq> Inr ())"

text \<open>A store that lacks \<^verbatim>\<open>runSaga\<close>.\<close>

definition store_without_runSaga :: store where
  "store_without_runSaga = fresh_store\<lparr>runSaga := JUndefined\<rparr>"














text \<open>
  A \<^verbatim>\<open>createReducer\<close> to run on: the combined reducer it returns is one fixed function
  reference.
\<close>

definition example_createReducer :: "(string \<rightharpoonup> jsval) \<Rightarrow> jsval" where
  "example_createReducer m = JFun 100"

section \<open>Properties of the reducer injector\<close>

lemma checkStore_ok:
  "checkStore s = Inr () \<longleftrightarrow>
     isFunction (dispatch s) \<and> isFunction (subscribe s) \<and> isFunction (getState s) \<and>
     isFunction (replaceReducer s) \<and> isFunction (runSaga s) \<and>
     injectedReducers s \<noteq> None \<and> injectedSagas s \<noteq> None"
  by (simp add: checkStore_def invariant_def)

lemma checkStore_fresh_store: "checkStore fresh_store = Inr ()"
  by (simp add: checkStore_ok fresh_store_def)





section \<open>Properties of the saga injector and ejector\<close>

lemma checkDescriptor_ok:
  "checkDescriptor nd = Inr () \<longleftrightarrow>
     isFunction (read_prop nd ''saga'') \<and> isString (read_prop nd ''mode'') \<and>
     key_of (read_prop nd ''mode'') \<in> set allowedModes"
  by (simp add: checkDescriptor_def invariant_def)

lemma checkKey_ok: "checkKey key = Inr () \<longleftrightarrow> isString key \<and> \<not> isEmpty key"
  by (simp add: checkKey_def invariant_def)


lemma mode_neq:
  "isString v \<Longrightarrow> (v \<noteq> JStr x) = (key_of v \<noteq> x)"
  by (cases v) simp_all

lemma Reflect_has_own: "m k = Some e \<Longrightarrow> Reflect_has m p k"
  by (simp add: Reflect_has_def domI)

lemma Reflect_has_absent: "k \<notin> dom m \<Longrightarrow> \<not> inherited_has p k \<Longrightarrow> \<not> Reflect_has m p k"
  by (simp add: Reflect_has_def)

lemma sagas_get_own: "m k = Some e \<Longrightarrow> sagas_get m p k = entry_value e"
  by (simp add: sagas_get_def)

lemma get_prop_entry_saga: "get_prop (entry_value e) ''saga'' = Inr (old_saga (Some e))"
  by (cases e) simp_all

lemma has_proto_setter_inherited: "has_proto_setter p \<Longrightarrow> inherited_has p ''__proto__''"
  by (cases p) simp_all

lemma assign_saga_own:
  "injectedSagas s = Some m \<Longrightarrow> k \<in> dom m \<Longrightarrow>
   assign_saga k e ps s = s\<lparr>injectedSagas := Some (m(k \<mapsto> e))\<rparr>"
  by (simp add: assign_saga_def)

lemma assign_saga_absent:
  "injectedSagas s = Some m \<Longrightarrow> \<not> inherited_has (sagasPrototype s) k \<Longrightarrow>
   assign_saga k e ps s = s\<lparr>injectedSagas := Some (m(k \<mapsto> e))\<rparr>"
  using has_proto_setter_inherited [of "sagasPrototype s"]
  by (auto simp add: assign_saga_def)

lemma calls_assign_saga: "calls (assign_saga k e ps s) = calls s"
  by (simp add: assign_saga_def split: option.splits saga_entry.splits)

lemma fresh_key_not_inherited: "\<not> inherited_has ObjectPrototype ''k''"
  by (simp add: Object_prototype_functions_def)

lemma injectSaga_start:
  assumes "checkStore s = Inr ()" "checkKey key = Inr ()" "newDescriptor d = Inr nd"
    and "checkDescriptor nd = Inr ()" "injectedSagas s = Some m"
    and "(key_of key \<notin> dom m \<and> \<not> inherited_has (sagasPrototype s) (key_of key)) \<or>
         (key_of key \<in> dom m \<and>
          (production \<or> old_saga (m (key_of key)) = read_prop nd ''saga'') \<and>
          key_of (read_prop nd ''mode'') \<noteq> DAEMON \<and>
          key_of (read_prop nd ''mode'') \<noteq> ONCE_TILL_UNMOUNT)"
  shows "injectSagaFactory production isValid key d args s =
     (Inr (),
      s\<lparr>injectedSagas :=
           Some (m(key_of key \<mapsto>
             Descriptor (read_prop nd ''saga'') (key_of (read_prop nd ''mode'')) (length (calls s)))),
         calls := calls s @ [RunSaga (read_prop nd ''saga'') args (length (calls s))]\<rparr>)"
proof -
  have f: "isFunction (runSaga s)" using assms(1) by (simp add: checkStore_ok)
  have st: "isString (read_prop nd ''mode'')" using assms(4) by (simp add: checkDescriptor_ok)
  let ?s1 = "s\<lparr>calls := calls s @ [RunSaga (read_prop nd ''saga'') args (length (calls s))]\<rparr>"
  have a: "assign_saga (key_of key) e ps ?s1 =
             ?s1\<lparr>injectedSagas := Some (m(key_of key \<mapsto> e))\<rparr>" for e ps
    using assms(5,6) has_proto_setter_inherited [of "sagasPrototype s"]
    by (auto simp add: assign_saga_def)
  from assms(6) show ?thesis
  proof
    assume "key_of key \<notin> dom m \<and> \<not> inherited_has (sagasPrototype s) (key_of key)"
    then have "\<not> Reflect_has m (sagasPrototype s) (key_of key)"
      by (simp add: Reflect_has_absent)
    then show ?thesis
      using assms(1-5) f a by (simp add: injectSagaFactory_def Let_def)
  next
    assume c: "key_of key \<in> dom m \<and>
          (production \<or> old_saga (m (key_of key)) = read_prop nd ''saga'') \<and>
          key_of (read_prop nd ''mode'') \<noteq> DAEMON \<and>
          key_of (read_prop nd ''mode'') \<noteq> ONCE_TILL_UNMOUNT"
    then obtain e where e: "m (key_of key) = Some e" by auto
    show ?thesis
      using assms(1-5) f a c e
      by (auto simp add: injectSagaFactory_def Let_def mode_neq [OF st] Reflect_has_own
          sagas_get_own get_prop_entry_saga)
  qed
qed

lemma injectSaga_hot_reload:
  assumes "checkStore s = Inr ()" "checkKey key = Inr ()" "newDescriptor d = Inr nd"
    and "checkDescriptor nd = Inr ()" "injectedSagas s = Some m"
    and "\<not> production" "m (key_of key) = Some (Descriptor osaga omode otask)"
    and "osaga \<noteq> read_prop nd ''saga''"
  shows "injectSagaFactory production isValid key d args s =
     (Inr (),
      s\<lparr>injectedSagas :=
           Some (m(key_of key \<mapsto>
             Descriptor (read_prop nd ''saga'') (key_of (read_prop nd ''mode''))
               (Suc (length (calls s))))),
         calls := calls s @ [Cancel otask,
                    RunSaga (read_prop nd ''saga'') args (Suc (length (calls s)))]\<rparr>)"
proof -
  have f: "isFunction (runSaga s)" using assms(1) by (simp add: checkStore_ok)
  let ?s1 = "s\<lparr>calls := calls s @ [Cancel otask,
                    RunSaga (read_prop nd ''saga'') args (Suc (length (calls s)))]\<rparr>"
  have a: "assign_saga (key_of key) e ps ?s1 =
             ?s1\<lparr>injectedSagas := Some (m(key_of key \<mapsto> e))\<rparr>" for e ps
    using assms(5,7) by (simp add: assign_saga_own domI)
  show ?thesis
    using assms f a
    by (simp add: injectSagaFactory_def Let_def Reflect_has_own sagas_get_own)
qed

lemma injectSaga_skip:
  assumes "checkStore s = Inr ()" "checkKey key = Inr ()" "newDescriptor d = Inr nd"
    and "checkDescriptor nd = Inr ()" "injectedSagas s = Some m"
    and "key_of key \<in> dom m" "production \<or> old_saga (m (key_of key)) = read_prop nd ''saga''"
    and "key_of (read_prop nd ''mode'') = DAEMON \<or>
         key_of (read_prop nd ''mode'') = ONCE_TILL_UNMOUNT"
  shows "injectSagaFactory production isValid key d args s = (Inr (), s)"
proof -
  have st: "isString (read_prop nd ''mode'')" using assms(4) by (simp add: checkDescriptor_ok)
  obtain e where e: "m (key_of key) = Some e" using assms(6) by auto
  show ?thesis
    using assms e
    by (auto simp add: injectSagaFactory_def Let_def mode_neq [OF st] Reflect_has_own
        sagas_get_own get_prop_entry_saga)
qed

lemma injectSaga_done_dev:
  assumes "checkStore s = Inr ()" "checkKey key = Inr ()" "newDescriptor d = Inr nd"
    and "checkDescriptor nd = Inr ()" "injectedSagas s = Some m"
    and "\<not> production" "m (key_of key) = Some Done"
  shows "injectSagaFactory production isValid key d args s = (Inl (JErr TypeError), s)"
proof -
  have "read_prop nd ''saga'' \<noteq> JUndefined" using assms(4) by (auto simp add: checkDescriptor_ok)
  then show ?thesis
    using assms
    by (simp add: injectSagaFactory_def Let_def Reflect_has_own sagas_get_own)
qed

lemma ejectSaga_daemon:
  assumes "injectedSagas s = Some m" "m k = Some (Descriptor saga DAEMON task)"
  shows "snd (ejectSagaFactory production isValid (JStr k) s) = s"
  using assms
  by (simp add: ejectSagaFactory_def Reflect_has_own sagas_get_own split: sum.splits)


lemma ejectSaga_cancel:
  assumes "checkStore s = Inr ()" "checkKey key = Inr ()" "injectedSagas s = Some m"
    and "m (key_of key) = Some (Descriptor saga mode task)" "mode \<noteq> []" "mode \<noteq> DAEMON"
  shows "ejectSagaFactory production isValid key s =
           (Inr (), if production
                    then s\<lparr>calls := calls s @ [Cancel task],
                           injectedSagas := Some (m(key_of key \<mapsto> Done))\<rparr>
                    else s\<lparr>calls := calls s @ [Cancel task]\<rparr>)"
  using assms
  by (simp add: ejectSagaFactory_def Let_def Reflect_has_own sagas_get_own assign_saga_own domI)

text \<open>
  Claim C5. \<^verbatim>\<open>ejectSaga\<close> never cancels the task of a \<^verbatim>\<open>DAEMON\<close> entry: when
  \<^verbatim>\<open>injectedSagas[key]\<close> is a descriptor whose mode is \<^verbatim>\<open>DAEMON\<close>, \<^verbatim>\<open>ejectSaga(key)\<close> leaves the
  store as it is, in every build and for every store: no \<^verbatim>\<open>cancel()\<close> is logged and the entry
  is unchanged. With a non-empty key and a valid (or already validated) store the call
  returns without throwing.
\<close>

theorem ejectSaga_never_cancels_daemon:
  assumes "injectedSagas s = Some m" "m k = Some (Descriptor saga DAEMON task)"
  shows "snd (ejectSagaFactory production isValid (JStr k) s) = s
       \<and> (k \<noteq> [] \<and> (isValid \<or> checkStore s = Inr ())
            \<longrightarrow> fst (ejectSagaFactory production isValid (JStr k) s) = Inr ())"
  using assms
  by (auto simp add: ejectSagaFactory_def checkKey_def invariant_def Reflect_has_own
      sagas_get_own split: sum.splits if_splits)

lemma injectSaga_production_no_cancel:
  "filter is_Cancel (calls (snd (injectSagaFactory True isValid key d args s))) =
   filter is_Cancel (calls s)"
  by (simp add: injectSagaFactory_def Let_def calls_assign_saga
      split: sum.splits option.splits)

text \<open>
  Claim C6. Hot-reload policy. When \<^verbatim>\<open>injectSaga(key, descriptor)\<close> finds a descriptor at the
  key whose stored saga is another reference than the new saga: in a non-production build
  the call cancels the task of the stored descriptor, then starts the new saga and records
  it at the key, as for an absent key; in a production build the call logs no \<^verbatim>\<open>cancel()\<close>.
\<close>

theorem hot_reload_policy:
  assumes "checkStore s = Inr ()" "checkKey key = Inr ()" "newDescriptor d = Inr nd"
    and "checkDescriptor nd = Inr ()" "injectedSagas s = Some m"
    and "m (key_of key) = Some (Descriptor osaga omode otask)"
    and "osaga \<noteq> read_prop nd ''saga''"
  shows "(\<not> production \<longrightarrow>
            injectSagaFactory production isValid key d args s =
              (Inr (),
               s\<lparr>injectedSagas :=
                    Some (m(key_of key \<mapsto>
                      Descriptor (read_prop nd ''saga'') (key_of (read_prop nd ''mode''))
                        (Suc (length (calls s))))),
                  calls := calls s @ [Cancel otask,
                             RunSaga (read_prop nd ''saga'') args (Suc (length (calls s)))]\<rparr>))
       \<and> (production \<longrightarrow>
            filter is_Cancel (calls (snd (injectSagaFactory production isValid key d args s))) =
            filter is_Cancel (calls s))"
  using injectSaga_hot_reload [OF assms(1-5) _ assms(6,7)] injectSaga_production_no_cancel
  by auto





lemma modes_distinct:
  "RESTART_ON_REMOUNT \<noteq> DAEMON" "RESTART_ON_REMOUNT \<noteq> ONCE_TILL_UNMOUNT"
  "DAEMON \<noteq> ONCE_TILL_UNMOUNT" "DAEMON \<noteq> []" "ONCE_TILL_UNMOUNT \<noteq> []"
  "RESTART_ON_REMOUNT \<noteq> []"
  "DAEMON \<noteq> RESTART_ON_REMOUNT" "ONCE_TILL_UNMOUNT \<noteq> RESTART_ON_REMOUNT"
  "ONCE_TILL_UNMOUNT \<noteq> DAEMON"
  by (simp_all add: RESTART_ON_REMOUNT_def DAEMON_def ONCE_TILL_UNMOUNT_def)

lemma valid_descriptor_newDescriptor:
  assumes "valid_descriptor d"
  shows "\<exists>nd. newDescriptor d = Inr nd \<and> checkDescriptor nd = Inr ()
              \<and> read_prop nd ''saga'' = requested_saga d
              \<and> key_of (read_prop nd ''mode'') = requested_mode d"
proof -
  obtain ps where d: "d = JObj ps"
    using assms by (cases d) (simp_all add: valid_descriptor_def requested_saga_def)
  show ?thesis
    using assms unfolding d
    by (auto simp add: valid_descriptor_def requested_saga_def requested_mode_def
        newDescriptor_def checkDescriptor_ok allowedModes_def)
qed

lemma injectSaga_started_shape:
  assumes "checkStore s = Inr ()" "checkKey key = Inr ()" "newDescriptor d = Inr nd"
    and "checkDescriptor nd = Inr ()" "injectedSagas s = Some m"
    and "key_of key \<in> dom m \<or> \<not> inherited_has (sagasPrototype s) (key_of key)"
    and "production \<or> m (key_of key) \<noteq> Some Done"
    and "\<not> hasSaga_after_hot_reload production m (key_of key) (read_prop nd ''saga'') \<or>
         (key_of (read_prop nd ''mode'') \<noteq> DAEMON \<and>
          key_of (read_prop nd ''mode'') \<noteq> ONCE_TILL_UNMOUNT)"
  shows "\<exists>pre task.
     injectSagaFactory production isValid key d args s =
       (Inr (),
        s\<lparr>injectedSagas :=
             Some (m(key_of key \<mapsto>
               Descriptor (read_prop nd ''saga'') (key_of (read_prop nd ''mode'')) task)),
           calls := calls s @ pre @ [RunSaga (read_prop nd ''saga'') args task]\<rparr>)
     \<and> filter is_RunSaga pre = []"
proof (cases "\<not> production \<and> key_of key \<in> dom m \<and>
              old_saga (m (key_of key)) \<noteq> read_prop nd ''saga''")
  case True
  then obtain e where e: "m (key_of key) = Some e" by auto
  with assms(7) True obtain osaga omode otask where
    d: "m (key_of key) = Some (Descriptor osaga omode otask)"
    by (cases e) auto
  have ne: "osaga \<noteq> read_prop nd ''saga''" using True d by simp
  have np: "\<not> production" using True by simp
  have "injectSagaFactory production isValid key d args s =
       (Inr (),
        s\<lparr>injectedSagas :=
             Some (m(key_of key \<mapsto>
               Descriptor (read_prop nd ''saga'') (key_of (read_prop nd ''mode''))
                 (Suc (length (calls s))))),
           calls := calls s @ [Cancel otask] @
              [RunSaga (read_prop nd ''saga'') args (Suc (length (calls s)))]\<rparr>)"
    using injectSaga_hot_reload [OF assms(1-5) np d ne, of isValid args] by simp
  moreover have "filter is_RunSaga [Cancel otask] = []" by simp
  ultimately show ?thesis by blast
next
  case False
  with assms(6,8) have c:
    "(key_of key \<notin> dom m \<and> \<not> inherited_has (sagasPrototype s) (key_of key)) \<or>
         (key_of key \<in> dom m \<and>
          (production \<or> old_saga (m (key_of key)) = read_prop nd ''saga'') \<and>
          key_of (read_prop nd ''mode'') \<noteq> DAEMON \<and>
          key_of (read_prop nd ''mode'') \<noteq> ONCE_TILL_UNMOUNT)"
    by (auto simp add: hasSaga_after_hot_reload_def)
  have "injectSagaFactory production isValid key d args s =
     (Inr (),
      s\<lparr>injectedSagas :=
           Some (m(key_of key \<mapsto>
             Descriptor (read_prop nd ''saga'') (key_of (read_prop nd ''mode'')) (length (calls s)))),
         calls := calls s @ [] @ [RunSaga (read_prop nd ''saga'') args (length (calls s))]\<rparr>)"
    using injectSaga_start [OF assms(1-5) c, of isValid args] by simp
  then show ?thesis by (metis filter.simps(1))
qed

lemma injectSaga_skipped:
  assumes "checkStore s = Inr ()" "checkKey key = Inr ()" "newDescriptor d = Inr nd"
    and "checkDescriptor nd = Inr ()" "injectedSagas s = Some m"
    and "\<not> (\<not> hasSaga_after_hot_reload production m (key_of key) (read_prop nd ''saga'') \<or>
         (key_of (read_prop nd ''mode'') \<noteq> DAEMON \<and>
          key_of (read_prop nd ''mode'') \<noteq> ONCE_TILL_UNMOUNT))"
  shows "injectSagaFactory production isValid key d args s = (Inr (), s)"
proof -
  from assms(6) have a: "key_of key \<in> dom m"
    and b: "production \<or> old_saga (m (key_of key)) = read_prop nd ''saga''"
    and c: "key_of (read_prop nd ''mode'') = DAEMON \<or>
         key_of (read_prop nd ''mode'') = ONCE_TILL_UNMOUNT"
    by (auto simp add: hasSaga_after_hot_reload_def)
  show ?thesis by (rule injectSaga_skip [OF assms(1-5) a b c])
qed

lemma count_runSaga_append:
  "count_runSaga (xs @ ys) = count_runSaga xs + count_runSaga ys"
  by (simp add: count_runSaga_def)

lemma injectSaga_twice_daemon:
  assumes "checkStore s = Inr ()" "checkKey key = Inr ()" "newDescriptor d = Inr nd"
    and "checkDescriptor nd = Inr ()" "injectedSagas s = Some m"
    and "key_of key \<notin> dom m" "\<not> inherited_has (sagasPrototype s) (key_of key)"
    and "key_of (read_prop nd ''mode'') = DAEMON"
  shows "count_runSaga (calls (snd (injectSagaFactory production isValid key d args
            (snd (injectSagaFactory production isValid key d args s))))) =
         count_runSaga (calls s) + 1"
proof -
  let ?saga = "read_prop nd ''saga''" and ?mode = "key_of (read_prop nd ''mode'')"
  let ?m1 = "m(key_of key \<mapsto> Descriptor ?saga ?mode (length (calls s)))"
  let ?s1 = "s\<lparr>injectedSagas := Some ?m1,
                calls := calls s @ [RunSaga ?saga args (length (calls s))]\<rparr>"
  have 1: "injectSagaFactory production isValid key d args s = (Inr (), ?s1)"
    by (rule injectSaga_start [OF assms(1-5)]) (simp add: assms(6,7))
  have ok: "checkStore ?s1 = Inr ()" using assms(1) by (simp add: checkStore_ok)
  have 2: "injectSagaFactory production isValid key d args ?s1 = (Inr (), ?s1)"
    by (rule injectSaga_skip [where m = ?m1, OF ok assms(2-4)]) (simp_all add: assms(8))
  show ?thesis by (simp add: 1 2 count_runSaga_def)
qed

lemma injectSaga_twice_restart:
  assumes "checkStore s = Inr ()" "checkKey key = Inr ()" "newDescriptor d = Inr nd"
    and "checkDescriptor nd = Inr ()" "injectedSagas s = Some m"
    and "key_of key \<in> dom m \<or> \<not> inherited_has (sagasPrototype s) (key_of key)"
    and "production \<or> m (key_of key) \<noteq> Some Done"
    and "key_of (read_prop nd ''mode'') = RESTART_ON_REMOUNT"
  shows "count_runSaga (calls (snd (injectSagaFactory production isValid key d args
            (snd (injectSagaFactory production isValid key d args s))))) =
         count_runSaga (calls s) + 2"
proof -
  let ?saga = "read_prop nd ''saga''" and ?mode = "key_of (read_prop nd ''mode'')"
  have c: "\<not> hasSaga_after_hot_reload production m (key_of key) ?saga \<or>
         (?mode \<noteq> DAEMON \<and> ?mode \<noteq> ONCE_TILL_UNMOUNT)"
    using assms(8) by (simp add: modes_distinct)
  obtain pre task where
    1: "injectSagaFactory production isValid key d args s =
       (Inr (), s\<lparr>injectedSagas := Some (m(key_of key \<mapsto> Descriptor ?saga ?mode task)),
           calls := calls s @ pre @ [RunSaga ?saga args task]\<rparr>)"
    and pre: "filter is_RunSaga pre = []"
    using injectSaga_started_shape [OF assms(1-7) c, of isValid args] by blast
  define m1 where "m1 = m(key_of key \<mapsto> Descriptor ?saga ?mode task)"
  define s1 where "s1 = s\<lparr>injectedSagas := Some m1,
                calls := calls s @ pre @ [RunSaga ?saga args task]\<rparr>"
  have 1: "injectSagaFactory production isValid key d args s = (Inr (), s1)"
    using 1 by (simp add: s1_def m1_def)
  have ok: "checkStore s1 = Inr ()" using assms(1) by (simp add: checkStore_ok s1_def)
  have ms: "injectedSagas s1 = Some m1" by (simp add: s1_def)
  have c1: "(key_of key \<notin> dom m1 \<and> \<not> inherited_has (sagasPrototype s1) (key_of key)) \<or>
         (key_of key \<in> dom m1 \<and>
          (production \<or> old_saga (m1 (key_of key)) = ?saga) \<and>
          ?mode \<noteq> DAEMON \<and> ?mode \<noteq> ONCE_TILL_UNMOUNT)"
    by (simp add: m1_def assms(8) modes_distinct)
  have 2: "injectSagaFactory production isValid key d args s1 =
     (Inr (),
      s1\<lparr>injectedSagas :=
           Some (m1(key_of key \<mapsto> Descriptor ?saga ?mode (length (calls s1)))),
         calls := calls s1 @ [RunSaga ?saga args (length (calls s1))]\<rparr>)"
    by (rule injectSaga_start [OF ok assms(2-4) ms c1])
  have n1: "count_runSaga (calls s1) = count_runSaga (calls s) + 1"
    using pre by (simp add: s1_def count_runSaga_def)
  show ?thesis by (simp add: 1 2 n1 count_runSaga_append) (simp add: count_runSaga_def)
qed

text \<open>
  Claim C2, amended. Start policy. For a valid store, a non-empty string key that is an own
  property of \<^verbatim>\<open>store.injectedSagas\<close> or no property of it at all (neither own nor inherited),
  and a valid descriptor, where the own entry, if any, is one this build can have left there
  (the sentinel occurs in production builds only): \<^verbatim>\<open>injectSaga\<close> returns, and it has started
  the saga (called \<^verbatim>\<open>store.runSaga\<close> and recorded the task at the key, with the saga and the
  mode asked for) if and only if no entry exists at the key after the hot-reload check, or
  the mode asked for is neither \<^verbatim>\<open>DAEMON\<close> nor \<^verbatim>\<open>ONCE_TILL_UNMOUNT\<close>; otherwise the store is
  unchanged. So two injections in a row under \<^verbatim>\<open>DAEMON\<close> with the same descriptor, at a key
  not yet in the mapping, make one \<^verbatim>\<open>runSaga\<close> call, and two injections in a row under
  \<^verbatim>\<open>RESTART_ON_REMOUNT\<close> make two.
\<close>

theorem injectSaga_start_policy:
  assumes "checkStore s = Inr ()" "checkKey key = Inr ()" "valid_descriptor d"
    and "injectedSagas s = Some m"
    and "key_of key \<in> dom m \<or> \<not> inherited_has (sagasPrototype s) (key_of key)"
    and "production \<or> m (key_of key) \<noteq> Some Done"
  shows "fst (injectSagaFactory production isValid key d args s) = Inr ()
       \<and> (started s (snd (injectSagaFactory production isValid key d args s)) key d args
            \<longleftrightarrow> start_condition production m key d)
       \<and> (\<not> start_condition production m key d
            \<longrightarrow> snd (injectSagaFactory production isValid key d args s) = s)
       \<and> (requested_mode d = DAEMON \<and> key_of key \<notin> dom m
            \<longrightarrow> count_runSaga (calls (snd (injectSagaFactory production isValid key d args
                    (snd (injectSagaFactory production isValid key d args s))))) =
                 count_runSaga (calls s) + 1)
       \<and> (requested_mode d = RESTART_ON_REMOUNT
            \<longrightarrow> count_runSaga (calls (snd (injectSagaFactory production isValid key d args
                    (snd (injectSagaFactory production isValid key d args s))))) =
                 count_runSaga (calls s) + 2)"
proof -
  obtain nd where nd: "newDescriptor d = Inr nd" and cd: "checkDescriptor nd = Inr ()"
    and sg: "read_prop nd ''saga'' = requested_saga d"
    and md: "key_of (read_prop nd ''mode'') = requested_mode d"
    using valid_descriptor_newDescriptor [OF assms(3)] by blast
  note pre = assms(1,2) nd cd assms(4)
  have daemon: "count_runSaga (calls (snd (injectSagaFactory production isValid key d args
                    (snd (injectSagaFactory production isValid key d args s))))) =
                 count_runSaga (calls s) + 1"
    if "requested_mode d = DAEMON" "key_of key \<notin> dom m"
    using injectSaga_twice_daemon [OF pre, of production isValid args] that assms(5) md
    by simp
  have restart: "count_runSaga (calls (snd (injectSagaFactory production isValid key d args
                    (snd (injectSagaFactory production isValid key d args s))))) =
                 count_runSaga (calls s) + 2"
    if "requested_mode d = RESTART_ON_REMOUNT"
    using injectSaga_twice_restart [OF pre assms(5,6), of isValid args] that md by simp
  show ?thesis
  proof (cases "start_condition production m key d")
    case True
    then obtain pre' task where
      1: "injectSagaFactory production isValid key d args s =
         (Inr (), s\<lparr>injectedSagas := Some (m(key_of key \<mapsto>
              Descriptor (requested_saga d) (requested_mode d) task)),
             calls := calls s @ pre' @ [RunSaga (requested_saga d) args task]\<rparr>)"
      and pre': "filter is_RunSaga pre' = []"
      using injectSaga_started_shape [OF pre assms(5,6), of isValid args]
      unfolding start_condition_def sg md by blast
    have st: "started s (snd (injectSagaFactory production isValid key d args s)) key d args"
      unfolding 1 using pre' by (simp add: started_def count_runSaga_def saga_at_def)
    show ?thesis using True st 1 daemon restart by simp
  next
    case False
    have 1: "injectSagaFactory production isValid key d args s = (Inr (), s)"
      using injectSaga_skipped [OF pre, of production isValid args] False
      unfolding start_condition_def sg md by blast
    have "\<not> started s s key d args" by (simp add: started_def)
    moreover have "requested_mode d \<noteq> RESTART_ON_REMOUNT"
      using False by (auto simp add: start_condition_def modes_distinct)
    moreover have "key_of key \<in> dom m"
      using False by (auto simp add: start_condition_def hasSaga_after_hot_reload_def)
    ultimately show ?thesis
      using False 1 by simp
  qed
qed

lemma newDescriptor_once:
  "newDescriptor once_descriptor =
     Inr (JObj [(''mode'', JStr ONCE_TILL_UNMOUNT), (''saga'', JFun 10),
                (''mode'', JStr ONCE_TILL_UNMOUNT)])"
  by (simp add: newDescriptor_def once_descriptor_def modes_distinct)

lemma newDescriptor_daemon:
  "newDescriptor daemon_descriptor = Inr (JObj [(''mode'', JStr DAEMON), (''saga'', JFun 11)])"
  by (simp add: newDescriptor_def daemon_descriptor_def)

lemma newDescriptor_restart:
  "newDescriptor restart_descriptor =
     Inr (JObj [(''mode'', JStr RESTART_ON_REMOUNT), (''saga'', JFun 12),
                (''mode'', JStr RESTART_ON_REMOUNT)])"
  by (simp add: newDescriptor_def restart_descriptor_def modes_distinct)

lemma checkDescriptor_examples:
  "checkDescriptor (JObj [(''mode'', JStr ONCE_TILL_UNMOUNT), (''saga'', JFun 10),
                (''mode'', JStr ONCE_TILL_UNMOUNT)]) = Inr ()"
  "checkDescriptor (JObj [(''mode'', JStr DAEMON), (''saga'', JFun 11)]) = Inr ()"
  "checkDescriptor (JObj [(''mode'', JStr RESTART_ON_REMOUNT), (''saga'', JFun 12),
                (''mode'', JStr RESTART_ON_REMOUNT)]) = Inr ()"
  by (simp_all add: checkDescriptor_ok allowedModes_def)

lemma checkKey_k: "checkKey (JStr ''k'') = Inr ()"
  by (simp add: checkKey_ok)

lemma once_injected_eq:
  "once_injected =
     fresh_store\<lparr>injectedSagas :=
                   Some [''k'' \<mapsto> Descriptor (JFun 10) ONCE_TILL_UNMOUNT 0],
                 calls := [RunSaga (JFun 10) JUndefined 0]\<rparr>"
  unfolding once_injected_def
  using injectSaga_start [OF checkStore_fresh_store checkKey_k newDescriptor_once
      checkDescriptor_examples(1), of Map.empty True True JUndefined]
  by (simp add: fresh_store_def Object_prototype_functions_def)

lemma once_ejected_eq:
  "once_ejected =
     fresh_store\<lparr>injectedSagas := Some [''k'' \<mapsto> Done],
                 calls := [RunSaga (JFun 10) JUndefined 0, Cancel 0]\<rparr>"
  unfolding once_ejected_def once_injected_eq
  by (simp add: ejectSagaFactory_def checkKey_k fresh_store_def modes_distinct
      Reflect_has_def sagas_get_def assign_saga_def)

lemma restart_injected_dev_eq:
  "restart_injected_dev =
     fresh_store\<lparr>injectedSagas :=
                   Some [''k'' \<mapsto> Descriptor (JFun 12) RESTART_ON_REMOUNT 0],
                 calls := [RunSaga (JFun 12) JUndefined 0]\<rparr>"
  unfolding restart_injected_dev_def
  using injectSaga_start [OF checkStore_fresh_store checkKey_k newDescriptor_restart
      checkDescriptor_examples(3), of Map.empty False True JUndefined]
  by (simp add: fresh_store_def Object_prototype_functions_def)

lemma daemon_injected_eq:
  "daemon_injected =
     fresh_store\<lparr>injectedSagas := Some [''k'' \<mapsto> Descriptor (JFun 11) DAEMON 0],
                 calls := [RunSaga (JFun 11) JUndefined 0]\<rparr>"
  unfolding daemon_injected_def
  using injectSaga_start [OF checkStore_fresh_store checkKey_k newDescriptor_daemon
      checkDescriptor_examples(2), of Map.empty False True JUndefined]
  by (simp add: fresh_store_def Object_prototype_functions_def)

text \<open>
  Claim C1 says that in a production build, after \<^verbatim>\<open>ejectSaga(key)\<close> has replaced an
  \<^verbatim>\<open>ONCE_TILL_UNMOUNT\<close> entry by the sentinel, \<^verbatim>\<open>injectSaga(key, descriptor)\<close> with mode
  \<^verbatim>\<open>ONCE_TILL_UNMOUNT\<close> calls \<^verbatim>\<open>store.runSaga\<close> again. It does not: on a fresh store, inject
  under \<^verbatim>\<open>"k"\<close>, eject, inject again; the entry after the eject is the sentinel, and the
  second injection returns with the store unchanged and no further \<^verbatim>\<open>runSaga\<close> call.
\<close>

theorem once_till_unmount_restarted_counterexample:
  "saga_at once_injected ''k'' = Some (Descriptor (JFun 10) ONCE_TILL_UNMOUNT 0)
   \<and> saga_at once_ejected ''k'' = Some Done
   \<and> injectSagaFactory True True (JStr ''k'') once_descriptor JUndefined once_ejected =
       (Inr (), once_ejected)
   \<and> count_runSaga (calls (snd (injectSagaFactory True True (JStr ''k'') once_descriptor
        JUndefined once_ejected))) = count_runSaga (calls once_ejected)"
proof -
  have ok: "checkStore once_ejected = Inr ()"
    by (simp add: once_ejected_eq checkStore_ok fresh_store_def)
  have m: "injectedSagas once_ejected = Some [''k'' \<mapsto> Done]"
    by (simp add: once_ejected_eq)
  have "injectSagaFactory True True (JStr ''k'') once_descriptor JUndefined once_ejected =
       (Inr (), once_ejected)"
    by (rule injectSaga_skip [OF ok checkKey_k newDescriptor_once checkDescriptor_examples(1) m])
      simp_all
  then show ?thesis
    by (simp add: saga_at_def once_injected_eq once_ejected_eq)
qed

text \<open>
  Claim C1, amended. In a production build, \<^verbatim>\<open>ejectSaga(key)\<close> on an entry whose mode is
  \<^verbatim>\<open>ONCE_TILL_UNMOUNT\<close> cancels its task and replaces the entry by the sentinel; a
  subsequent \<^verbatim>\<open>injectSaga(key, descriptor)\<close> with mode \<^verbatim>\<open>ONCE_TILL_UNMOUNT\<close> finds the sentinel
  as an existing entry, does not call \<^verbatim>\<open>store.runSaga\<close>, and leaves the store, sentinel
  included, unchanged.
\<close>

theorem sentinel_keeps_once_till_unmount_stopped:
  assumes "checkStore s = Inr ()" "checkKey key = Inr ()" "injectedSagas s = Some m"
    and "m (key_of key) = Some (Descriptor osaga ONCE_TILL_UNMOUNT otask)"
    and "newDescriptor d = Inr nd" "checkDescriptor nd = Inr ()"
    and "key_of (read_prop nd ''mode'') = ONCE_TILL_UNMOUNT"
  shows "ejectSagaFactory True isValid key s =
           (Inr (), s\<lparr>calls := calls s @ [Cancel otask],
                       injectedSagas := Some (m(key_of key \<mapsto> Done))\<rparr>)
       \<and> injectSagaFactory True isValid key d args
            (snd (ejectSagaFactory True isValid key s)) =
           (Inr (), snd (ejectSagaFactory True isValid key s))"
proof -
  let ?s1 = "s\<lparr>calls := calls s @ [Cancel otask],
                       injectedSagas := Some (m(key_of key \<mapsto> Done))\<rparr>"
  have 1: "ejectSagaFactory True isValid key s = (Inr (), ?s1)"
    using ejectSaga_cancel [OF assms(1-4), of True isValid] by (simp add: modes_distinct)
  have ok: "checkStore ?s1 = Inr ()" using assms(1) by (simp add: checkStore_ok)
  have 2: "injectSagaFactory True isValid key d args ?s1 = (Inr (), ?s1)"
    by (rule injectSaga_skip [where m = "m(key_of key \<mapsto> Done)", OF ok assms(2,5,6)])
      (simp_all add: assms(7))
  show ?thesis by (simp add: 1 2)
qed


lemma checkStore_examples:
  "checkStore once_injected = Inr ()" "checkStore restart_injected_dev = Inr ()"
  "checkStore daemon_injected = Inr ()"
  by (simp_all add: once_injected_eq restart_injected_dev_eq daemon_injected_eq
      checkStore_ok fresh_store_def)

theorem sentinel_keeps_once_till_unmount_stopped_witness:
  "checkStore once_injected = Inr () \<and> checkKey (JStr ''k'') = Inr ()
   \<and> saga_at once_injected ''k'' = Some (Descriptor (JFun 10) ONCE_TILL_UNMOUNT 0)
   \<and> calls (snd (ejectSagaFactory True True (JStr ''k'') once_injected)) =
       [RunSaga (JFun 10) JUndefined 0, Cancel 0]
   \<and> calls (snd (injectSagaFactory True True (JStr ''k'') once_descriptor JUndefined
        (snd (ejectSagaFactory True True (JStr ''k'') once_injected)))) =
       [RunSaga (JFun 10) JUndefined 0, Cancel 0]"
proof -
  have m: "injectedSagas once_injected =
             Some [''k'' \<mapsto> Descriptor (JFun 10) ONCE_TILL_UNMOUNT 0]"
    by (simp add: once_injected_eq)
  have e: "[''k'' \<mapsto> Descriptor (JFun 10) ONCE_TILL_UNMOUNT 0] (key_of (JStr ''k'')) =
             Some (Descriptor (JFun 10) ONCE_TILL_UNMOUNT 0)"
    by simp
  have md: "key_of (read_prop (JObj [(''mode'', JStr ONCE_TILL_UNMOUNT), (''saga'', JFun 10),
                (''mode'', JStr ONCE_TILL_UNMOUNT)]) ''mode'') = ONCE_TILL_UNMOUNT"
    by simp
  note t = sentinel_keeps_once_till_unmount_stopped [OF checkStore_examples(1) checkKey_k m e
        newDescriptor_once checkDescriptor_examples(1) md, of True JUndefined]
  have 1: "calls (snd (ejectSagaFactory True True (JStr ''k'') once_injected)) =
             calls once_injected @ [Cancel 0]"
    using t [THEN conjunct1] by simp
  have 2: "snd (injectSagaFactory True True (JStr ''k'') once_descriptor JUndefined
             (snd (ejectSagaFactory True True (JStr ''k'') once_injected))) =
           snd (ejectSagaFactory True True (JStr ''k'') once_injected)"
    using t [THEN conjunct2] by simp
  have 3: "calls once_injected = [RunSaga (JFun 10) JUndefined 0]"
    by (simp add: once_injected_eq)
  show ?thesis
    unfolding 2 1 3 by (simp add: checkStore_examples checkKey_k saga_at_def m)
qed

lemma valid_descriptor_examples:
  "valid_descriptor daemon_descriptor" "valid_descriptor restart_descriptor"
  "requested_mode daemon_descriptor = DAEMON"
  "requested_mode restart_descriptor = RESTART_ON_REMOUNT"
  by (simp_all add: valid_descriptor_def requested_saga_def requested_mode_def
      daemon_descriptor_def restart_descriptor_def allowedModes_def modes_distinct)

text \<open>
  Claim C2 says, for every store and key, that \<^verbatim>\<open>injectSaga\<close> starts the saga if and only if
  no entry exists at the key or the mode is neither \<^verbatim>\<open>DAEMON\<close> nor \<^verbatim>\<open>ONCE_TILL_UNMOUNT\<close>, and
  that two \<^verbatim>\<open>DAEMON\<close> injections start the task exactly once. On a fresh store whose mapping
  was made by \<^verbatim>\<open>{}\<close> it is not so for a key that the mapping inherits: nothing has been
  injected under \<^verbatim>\<open>"constructor"\<close>, yet in a production build two \<^verbatim>\<open>DAEMON\<close> injections under
  it start nothing, since \<^verbatim>\<open>Reflect.has\<close> finds the inherited property; and in a
  non-production build a \<^verbatim>\<open>RESTART_ON_REMOUNT\<close> injection under \<^verbatim>\<open>"toString"\<close> throws a
  \<^verbatim>\<open>TypeError\<close> from the hot-reload block and starts nothing.
\<close>

theorem inherited_key_start_policy_counterexample:
  "checkStore fresh_store = Inr () \<and> saga_at fresh_store ''constructor'' = None
   \<and> valid_descriptor daemon_descriptor \<and> valid_descriptor restart_descriptor
   \<and> count_runSaga (calls (snd (injectSagaFactory True True (JStr ''constructor'')
        daemon_descriptor JUndefined (snd (injectSagaFactory True True (JStr ''constructor'')
          daemon_descriptor JUndefined fresh_store))))) = 0
   \<and> injectSagaFactory False True (JStr ''toString'') restart_descriptor JUndefined
        fresh_store = (Inl (JErr TypeError), fresh_store)"
proof -
  have m: "injectedSagas fresh_store = Some Map.empty"
    and p: "sagasPrototype fresh_store = ObjectPrototype"
    and c: "calls fresh_store = []"
    by (simp_all add: fresh_store_def)
  have k1: "checkKey (JStr ''constructor'') = Inr ()" and k2: "checkKey (JStr ''toString'') = Inr ()"
    by (simp_all add: checkKey_ok)
  have h1: "Reflect_has Map.empty ObjectPrototype ''constructor''"
    and h2: "Reflect_has Map.empty ObjectPrototype ''toString''"
    by (simp_all add: Reflect_has_def Object_prototype_functions_def)
  have g2: "sagas_get Map.empty ObjectPrototype ''toString'' = JBuiltin ''toString''"
    by (simp add: sagas_get_def Object_prototype_functions_def)
  have 1: "injectSagaFactory True True (JStr ''constructor'') daemon_descriptor JUndefined
             fresh_store = (Inr (), fresh_store)"
    using m p k1 h1 newDescriptor_daemon checkDescriptor_examples(2)
    by (simp add: injectSagaFactory_def)
  have 2: "injectSagaFactory False True (JStr ''toString'') restart_descriptor JUndefined
             fresh_store = (Inl (JErr TypeError), fresh_store)"
    using m p k2 h2 g2 newDescriptor_restart checkDescriptor_examples(3)
    by (simp add: injectSagaFactory_def Let_def)
  show ?thesis
    using 1 2 c
    by (simp add: checkStore_fresh_store valid_descriptor_examples saga_at_def m
        count_runSaga_def)
qed

theorem injectSaga_start_policy_witness:
  "checkStore fresh_store = Inr () \<and> checkKey (JStr ''k'') = Inr ()
   \<and> valid_descriptor daemon_descriptor \<and> valid_descriptor restart_descriptor
   \<and> \<not> inherited_has (sagasPrototype fresh_store) ''k''
   \<and> count_runSaga (calls (snd (injectSagaFactory False True (JStr ''k'') daemon_descriptor
        JUndefined (snd (injectSagaFactory False True (JStr ''k'') daemon_descriptor
          JUndefined fresh_store))))) = 1
   \<and> count_runSaga (calls (snd (injectSagaFactory False True (JStr ''k'') restart_descriptor
        JUndefined (snd (injectSagaFactory False True (JStr ''k'') restart_descriptor
          JUndefined fresh_store))))) = 2"
proof -
  have m: "injectedSagas fresh_store = Some Map.empty" by (simp add: fresh_store_def)
  have ni: "\<not> inherited_has (sagasPrototype fresh_store) ''k''"
    by (simp add: fresh_store_def Object_prototype_functions_def)
  have own: "key_of (JStr ''k'') \<in> dom Map.empty \<or>
             \<not> inherited_has (sagasPrototype fresh_store) (key_of (JStr ''k''))"
    using ni by simp
  have wf: "False \<or> Map.empty (key_of (JStr ''k'')) \<noteq> Some Done" by simp
  have c: "count_runSaga (calls fresh_store) = 0"
    by (simp add: fresh_store_def count_runSaga_def)
  show ?thesis
    using injectSaga_start_policy [OF checkStore_fresh_store checkKey_k
        valid_descriptor_examples(1) m own wf, of True JUndefined]
      injectSaga_start_policy [OF checkStore_fresh_store checkKey_k
        valid_descriptor_examples(2) m own wf, of True JUndefined]
      valid_descriptor_examples ni c
    by (simp add: checkStore_fresh_store checkKey_k)
qed


theorem ejectSaga_never_cancels_daemon_witness:
  "saga_at daemon_injected ''k'' = Some (Descriptor (JFun 11) DAEMON 0)
   \<and> ejectSagaFactory True True (JStr ''k'') daemon_injected = (Inr (), daemon_injected)"
proof -
  have m: "injectedSagas daemon_injected = Some [''k'' \<mapsto> Descriptor (JFun 11) DAEMON 0]"
    by (simp add: daemon_injected_eq)
  have e: "[''k'' \<mapsto> Descriptor (JFun 11) DAEMON 0] ''k'' = Some (Descriptor (JFun 11) DAEMON 0)"
    by simp
  show ?thesis
    using ejectSaga_never_cancels_daemon [OF m e, of True True]
    by (simp add: saga_at_def m prod_eq_iff)
qed

theorem hot_reload_policy_witness:
  "checkStore restart_injected_dev = Inr () \<and> checkKey (JStr ''k'') = Inr ()
   \<and> saga_at restart_injected_dev ''k'' = Some (Descriptor (JFun 12) RESTART_ON_REMOUNT 0)
   \<and> JFun 12 \<noteq> JFun 10
   \<and> calls (snd (injectSagaFactory False True (JStr ''k'') once_descriptor JUndefined
        restart_injected_dev)) =
       [RunSaga (JFun 12) JUndefined 0, Cancel 0, RunSaga (JFun 10) JUndefined 2]"
proof -
  have m: "injectedSagas restart_injected_dev =
             Some [''k'' \<mapsto> Descriptor (JFun 12) RESTART_ON_REMOUNT 0]"
    by (simp add: restart_injected_dev_eq)
  have e: "[''k'' \<mapsto> Descriptor (JFun 12) RESTART_ON_REMOUNT 0] (key_of (JStr ''k'')) =
             Some (Descriptor (JFun 12) RESTART_ON_REMOUNT 0)"
    by simp
  have ne: "JFun 12 \<noteq> read_prop (JObj [(''mode'', JStr ONCE_TILL_UNMOUNT), (''saga'', JFun 10),
                (''mode'', JStr ONCE_TILL_UNMOUNT)]) ''saga''"
    by simp
  show ?thesis
    using hot_reload_policy [OF checkStore_examples(2) checkKey_k newDescriptor_once
        checkDescriptor_examples(1) m e ne, of False True JUndefined]
    by (simp add: checkStore_examples checkKey_k saga_at_def m)
      (simp add: restart_injected_dev_eq)
qed

section \<open>Validation comes before mutation\<close>

lemma checkStore_cases:
  "checkStore s = Inr () \<or>
   checkStore s = Inl (JErr (ContractViolation
     ''(app/utils...) injectors: Expected a valid redux store''))"
  by (simp add: checkStore_def invariant_def)

lemma factories_invalid_store:
  assumes "checkStore s \<noteq> Inr ()"
  shows "is_ContractViolation (fst (reducerInjectors reducers s))"
    and "snd (reducerInjectors reducers s) = s"
    and "is_ContractViolation (fst (sagaInjectors production s))"
    and "snd (sagaInjectors production s) = s"
    and "is_ContractViolation (fst (simpleLazyLoadedRoute production reducers s))"
    and "snd (simpleLazyLoadedRoute production reducers s) = s"
  using assms checkStore_cases [of s]
  by (auto simp add: reducerInjectors_def sagaInjectors_def simpleLazyLoadedRoute_def)

lemma injectReducer_invalid:
  assumes "\<not> (isString key \<and> \<not> isEmpty key \<and> isFunction reducer)"
  shows "is_ContractViolation (fst (injectReducerFactory isValid cr key reducer s))"
    and "snd (injectReducerFactory isValid cr key reducer s) = s"
  using assms checkStore_cases [of s]
  by (auto simp add: injectReducerFactory_def invariant_def)

lemma newDescriptor_Inl: "newDescriptor d = Inl e \<Longrightarrow> d = JNull"
  by (cases d) (simp_all add: newDescriptor_def)

lemma checkKey_cases:
  "checkKey key = Inr () \<or>
   checkKey key = Inl (JErr (ContractViolation
     ''(app/utils...) injectSaga: Expected `key` to be a non empty string''))"
  by (simp add: checkKey_def invariant_def)

lemma checkDescriptor_cases:
  "checkDescriptor nd = Inr () \<or>
   checkDescriptor nd = Inl (JErr (ContractViolation
     ''(app/utils...) injectSaga: Expected a valid saga descriptor''))"
  by (simp add: checkDescriptor_def invariant_def)

lemma checkDescriptor_Inl:
  "checkDescriptor nd = Inl x \<Longrightarrow> is_ContractViolation (Inl x :: unit thrown_or)"
  using checkDescriptor_cases [of nd] by auto

lemma injectSaga_invalid:
  assumes "checkKey key \<noteq> Inr () \<or> invalid_descriptor d"
  shows "isl (fst (injectSagaFactory production isValid key d args s))"
    and "snd (injectSagaFactory production isValid key d args s) = s"
    and "d \<noteq> JNull \<Longrightarrow>
           is_ContractViolation (fst (injectSagaFactory production isValid key d args s))"
  using assms checkStore_cases [of s] checkKey_cases [of key]
  by (auto simp add: injectSagaFactory_def invalid_descriptor_def Let_def
      dest: newDescriptor_Inl checkDescriptor_Inl split: sum.splits)

lemma ejectSaga_invalid:
  assumes "checkKey key \<noteq> Inr ()"
  shows "is_ContractViolation (fst (ejectSagaFactory production isValid key s))"
    and "snd (ejectSagaFactory production isValid key s) = s"
  using assms checkStore_cases [of s] checkKey_cases [of key]
  by (auto simp add: ejectSagaFactory_def)

lemma injectReducer_violation_no_mutation:
  assumes "is_ContractViolation (fst (injectReducerFactory isValid cr key reducer s))"
  shows "snd (injectReducerFactory isValid cr key reducer s) = s"
proof (cases "if \<not> isValid then checkStore s else Inr ()")
  case (Inl e)
  then show ?thesis by (simp add: injectReducerFactory_def)
next
  case store: (Inr u)
  show ?thesis
  proof (cases "isString key \<and> \<not> isEmpty key \<and> isFunction reducer")
    case False
    then show ?thesis by (rule injectReducer_invalid(2))
  next
    case True
    show ?thesis
    proof (cases "injectedReducers s")
      case None
      then show ?thesis using store True by (simp add: injectReducerFactory_def invariant_def)
    next
      case (Some m)
      then show ?thesis
        using store True assms
        by (simp add: injectReducerFactory_def invariant_def Let_def split: if_splits)
    qed
  qed
qed

lemma call_cancel_Inl: "call_cancel v cs = (Inl e, cs') \<Longrightarrow> e = JErr TypeError \<and> cs' = cs"
  by (cases v) (auto split: option.splits if_splits)

lemma get_prop_Inl: "get_prop v p = Inl e \<Longrightarrow> e = JErr TypeError"
  by (cases v) auto

lemma ejectSaga_violation_no_mutation:
  assumes "is_ContractViolation (fst (ejectSagaFactory production isValid key s))"
  shows "snd (ejectSagaFactory production isValid key s) = s"
proof (cases "if \<not> isValid then checkStore s else Inr ()")
  case (Inl e)
  then show ?thesis by (simp add: ejectSagaFactory_def)
next
  case store: (Inr u)
  show ?thesis
  proof (cases "checkKey key")
    case (Inl e)
    then show ?thesis by (simp add: ejectSaga_invalid(2))
  next
    case key: (Inr u')
    show ?thesis
    proof (cases "injectedSagas s")
      case None
      then show ?thesis using store key by (simp add: ejectSagaFactory_def)
    next
      case sagas: (Some m)
      show ?thesis
        using store key sagas assms
        by (auto simp add: ejectSagaFactory_def Let_def calls_assign_saga
            split: sum.splits prod.splits if_splits
            dest!: call_cancel_Inl get_prop_Inl)
    qed
  qed
qed

lemma injectSaga_violation_no_mutation:
  assumes "is_ContractViolation (fst (injectSagaFactory production isValid key d args s))"
  shows "snd (injectSagaFactory production isValid key d args s) = s"
proof (cases "if \<not> isValid then checkStore s else Inr ()")
  case (Inl e)
  then show ?thesis by (simp add: injectSagaFactory_def)
next
  case store: (Inr u)
  show ?thesis
  proof (cases "checkKey key \<noteq> Inr () \<or> invalid_descriptor d")
    case True
    then show ?thesis by (rule injectSaga_invalid(2))
  next
    case False
    then obtain nd where nd: "newDescriptor d = Inr nd" and cd: "checkDescriptor nd = Inr ()"
      and key: "checkKey key = Inr ()"
      by (auto simp add: invalid_descriptor_def split: sum.splits)
    show ?thesis
    proof (cases "injectedSagas s")
      case None
      then show ?thesis using store key nd cd by (simp add: injectSagaFactory_def)
    next
      case sagas: (Some m)
      show ?thesis
        using store key nd cd sagas assms
        by (auto simp add: injectSagaFactory_def Let_def
            split: sum.splits prod.splits if_splits
            dest!: call_cancel_Inl get_prop_Inl)
    qed
  qed
qed

text \<open>
  Claim C7. Every validation failure happens before any mutation. For a store that lacks
  one of the seven required members, each exported factory (\<^verbatim>\<open>reducerInjectors\<close>,
  \<^verbatim>\<open>sagaInjectors\<close>, \<^verbatim>\<open>simpleLazyLoadedRoute\<close>) throws the contract violation and leaves the
  store as it is. \<^verbatim>\<open>injectReducer\<close> with an invalid key or reducer and \<^verbatim>\<open>ejectSaga\<close> with an
  invalid key throw a contract violation and leave the store as it is; \<^verbatim>\<open>injectSaga\<close> with
  an invalid key or descriptor throws and leaves the store as it is, and what it throws is
  a contract violation unless the descriptor is \<^verbatim>\<open>null\<close>. And whenever one of the three
  operations throws a contract violation, on any input, the store, its two mappings and
  its log of \<^verbatim>\<open>replaceReducer\<close>, \<^verbatim>\<open>runSaga\<close> and \<^verbatim>\<open>cancel\<close> calls, is unchanged.
\<close>

theorem validation_before_mutation:
  "(\<not> isFunction (dispatch s) \<or> \<not> isFunction (subscribe s) \<or> \<not> isFunction (getState s) \<or>
    \<not> isFunction (replaceReducer s) \<or> \<not> isFunction (runSaga s) \<or>
    injectedReducers s = None \<or> injectedSagas s = None
    \<longrightarrow> is_ContractViolation (fst (reducerInjectors reducers s))
      \<and> snd (reducerInjectors reducers s) = s
      \<and> is_ContractViolation (fst (sagaInjectors production s))
      \<and> snd (sagaInjectors production s) = s
      \<and> is_ContractViolation (fst (simpleLazyLoadedRoute production reducers s))
      \<and> snd (simpleLazyLoadedRoute production reducers s) = s)
   \<and> (\<not> (isString key \<and> \<not> isEmpty key \<and> isFunction reducer)
    \<longrightarrow> is_ContractViolation (fst (injectReducerFactory isValid reducers key reducer s))
      \<and> snd (injectReducerFactory isValid reducers key reducer s) = s)
   \<and> (checkKey key \<noteq> Inr () \<or> invalid_descriptor d
    \<longrightarrow> isl (fst (injectSagaFactory production isValid key d args s))
      \<and> snd (injectSagaFactory production isValid key d args s) = s
      \<and> (d \<noteq> JNull
           \<longrightarrow> is_ContractViolation (fst (injectSagaFactory production isValid key d args s))))
   \<and> (checkKey key \<noteq> Inr ()
    \<longrightarrow> is_ContractViolation (fst (ejectSagaFactory production isValid key s))
      \<and> snd (ejectSagaFactory production isValid key s) = s)
   \<and> (is_ContractViolation (fst (injectReducerFactory isValid reducers key reducer s))
    \<longrightarrow> snd (injectReducerFactory isValid reducers key reducer s) = s)
   \<and> (is_ContractViolation (fst (injectSagaFactory production isValid key d args s))
    \<longrightarrow> snd (injectSagaFactory production isValid key d args s) = s)
   \<and> (is_ContractViolation (fst (ejectSagaFactory production isValid key s))
    \<longrightarrow> snd (ejectSagaFactory production isValid key s) = s)"
proof -
  have store: "checkStore s \<noteq> Inr ()"
    if "\<not> isFunction (dispatch s) \<or> \<not> isFunction (subscribe s) \<or> \<not> isFunction (getState s) \<or>
        \<not> isFunction (replaceReducer s) \<or> \<not> isFunction (runSaga s) \<or>
        injectedReducers s = None \<or> injectedSagas s = None"
    using that by (auto simp add: checkStore_ok)
  show ?thesis
    using store factories_invalid_store [of s] injectReducer_invalid [of key reducer]
      injectSaga_invalid [of key d] ejectSaga_invalid [of key]
      injectReducer_violation_no_mutation injectSaga_violation_no_mutation
      ejectSaga_violation_no_mutation
    by (intro conjI impI) blast+
qed

theorem validation_before_mutation_witness:
  "\<not> isFunction (runSaga store_without_runSaga)
   \<and> \<not> (isString (JNum 3) \<and> \<not> isEmpty (JNum 3) \<and> isFunction (JFun 7))
   \<and> invalid_descriptor (JObj [])
   \<and> is_ContractViolation (fst (sagaInjectors True store_without_runSaga))
   \<and> snd (simpleLazyLoadedRoute True example_createReducer store_without_runSaga) =
       store_without_runSaga
   \<and> snd (injectReducerFactory True example_createReducer (JNum 3) (JFun 7)
       store_without_runSaga) = store_without_runSaga
   \<and> snd (injectSagaFactory True True (JNum 3) (JObj []) JUndefined store_without_runSaga) =
       store_without_runSaga
   \<and> snd (ejectSagaFactory True True (JNum 3) store_without_runSaga) = store_without_runSaga"
proof -
  have h1: "\<not> isFunction (runSaga store_without_runSaga)"
    by (simp add: store_without_runSaga_def)
  have h2: "\<not> (isString (JNum 3) \<and> \<not> isEmpty (JNum 3) \<and> isFunction (JFun 7))" by simp
  have h3: "invalid_descriptor (JObj [])"
    by (simp add: invalid_descriptor_def newDescriptor_def checkDescriptor_def invariant_def)
  have h4: "checkKey (JNum 3) \<noteq> Inr ()" by (simp add: checkKey_def invariant_def)
  show ?thesis
    using validation_before_mutation [of store_without_runSaga example_createReducer True
        "JNum 3" "JFun 7" True "JObj []" JUndefined] h1 h2 h3 h4
    by blast
qed

section \<open>Properties of the lazily loaded routes\<close>















lemma map_Fulfilled_eq: "map Fulfilled xs = map Fulfilled ys \<longleftrightarrow> xs = ys"
  by (rule inj_map_eq_map) (simp add: inj_def)












end
